theory Spec2Isabelle
  imports Complex_Main
begin

section \<open>Numbers\<close>

text \<open>
  Every coordinate, length and offset of the program is a JavaScript number. The model
  keeps the special values of such a number apart from the finite ones: a finite value
  carries a real, and the arithmetic on two finite values is the exact one (rounding and
  overflow are left out, and there is one zero, the positive one). What the operations do
  on the infinities and on NaN is written out: a nonzero finite value divided by zero is
  an infinity, zero divided by zero is NaN, the difference of two equal infinities is NaN,
  and every comparison with NaN is false.
\<close>

datatype number = Fin real | PosInf | NegInf | NaN

instantiation number :: "{zero,one,plus,uminus,minus,times,inverse,ord}"
begin

definition zero_number :: number where
  "zero_number = Fin 0"

definition one_number :: number where
  "one_number = Fin 1"

fun plus_number :: "number \<Rightarrow> number \<Rightarrow> number" where
  "plus_number NaN b = NaN"
| "plus_number a NaN = NaN"
| "plus_number (Fin a) (Fin b) = Fin (a + b)"
| "plus_number PosInf NegInf = NaN"
| "plus_number NegInf PosInf = NaN"
| "plus_number PosInf b = PosInf"
| "plus_number NegInf b = NegInf"
| "plus_number (Fin a) b = b"

fun uminus_number :: "number \<Rightarrow> number" where
  "uminus_number (Fin a) = Fin (- a)"
| "uminus_number PosInf = NegInf"
| "uminus_number NegInf = PosInf"
| "uminus_number NaN = NaN"

definition minus_number :: "number \<Rightarrow> number \<Rightarrow> number" where
  "minus_number a b = a + (- b)"

fun times_number :: "number \<Rightarrow> number \<Rightarrow> number" where
  "times_number NaN b = NaN"
| "times_number a NaN = NaN"
| "times_number (Fin a) (Fin b) = Fin (a * b)"
| "times_number (Fin a) PosInf = (if a = 0 then NaN else if 0 < a then PosInf else NegInf)"
| "times_number (Fin a) NegInf = (if a = 0 then NaN else if 0 < a then NegInf else PosInf)"
| "times_number PosInf (Fin b) = (if b = 0 then NaN else if 0 < b then PosInf else NegInf)"
| "times_number NegInf (Fin b) = (if b = 0 then NaN else if 0 < b then NegInf else PosInf)"
| "times_number PosInf PosInf = PosInf"
| "times_number PosInf NegInf = NegInf"
| "times_number NegInf PosInf = NegInf"
| "times_number NegInf NegInf = PosInf"

fun divide_number :: "number \<Rightarrow> number \<Rightarrow> number" where
  "divide_number NaN b = NaN"
| "divide_number a NaN = NaN"
| "divide_number (Fin a) (Fin b) =
     (if b = 0 then (if a = 0 then NaN else if 0 < a then PosInf else NegInf)
      else Fin (a / b))"
| "divide_number (Fin a) b = Fin 0"
| "divide_number PosInf (Fin b) = (if 0 \<le> b then PosInf else NegInf)"
| "divide_number NegInf (Fin b) = (if 0 \<le> b then NegInf else PosInf)"
| "divide_number a b = NaN"

fun inverse_number :: "number \<Rightarrow> number" where
  "inverse_number (Fin a) = (if a = 0 then PosInf else Fin (1 / a))"
| "inverse_number PosInf = Fin 0"
| "inverse_number NegInf = Fin 0"
| "inverse_number NaN = NaN"

fun less_eq_number :: "number \<Rightarrow> number \<Rightarrow> bool" where
  "less_eq_number NaN b = False"
| "less_eq_number a NaN = False"
| "less_eq_number (Fin a) (Fin b) = (a \<le> b)"
| "less_eq_number NegInf b = True"
| "less_eq_number a PosInf = True"
| "less_eq_number a b = False"

fun less_number :: "number \<Rightarrow> number \<Rightarrow> bool" where
  "less_number NaN b = False"
| "less_number a NaN = False"
| "less_number (Fin a) (Fin b) = (a < b)"
| "less_number PosInf b = False"
| "less_number a NegInf = False"
| "less_number a b = True"

instance ..

end

text \<open>\<open>a == b\<close> on numbers: NaN equals nothing, itself included.\<close>

definition num_eq :: "number \<Rightarrow> number \<Rightarrow> bool" where
  "num_eq a b = (a \<noteq> NaN \<and> a = b)"

text \<open>The global \<open>isNaN\<close>.\<close>

definition isNaN :: "number \<Rightarrow> bool" where
  "isNaN a = (a = NaN)"


section \<open>Data model\<close>

text \<open>
  A point is a pair of numbers (\<open>_x\<close>, \<open>_y\<close>). A segment is an anchor point and two
  handles relative to it, the back-reference \<open>_path\<close> to the owning path (the path's
  identity, absent when undefined), its \<open>_index\<close> in that path's list and its selection
  state. A path owns its segments: a segment that already has a path is copied before it
  is stored in another list, so the list of a path is modelled as a list of segment values.
  A curve holds its two segments; the model stores them as they were when the curve was
  created or last re-pointed (\<open>None\<close> is JavaScript's undefined).
\<close>

record point =
  pt_x :: number
  pt_y :: number

record segment =
  s_point :: point
  s_handleIn :: point
  s_handleOut :: point
  s_path :: "nat option"
  s_index :: "int option"
  s_selectionState :: nat

record curve =
  c_path :: nat
  c_segment1 :: "segment option"
  c_segment2 :: "segment option"

record rectangle =
  r_x :: number
  r_y :: number
  r_width :: number
  r_height :: number

text \<open>
  The state of a path: the fields \<open>_segments\<close>, \<open>_closed\<close>, \<open>_curves\<close>,
  \<open>_selectedSegmentCount\<close>, the caches \<open>_length\<close>, \<open>_bounds\<close>, \<open>_position\<close>,
  \<open>_strokeBounds\<close>, \<open>_clockwise\<close> (\<open>None\<close> when deleted or never set), and the calls
  \<open>_project._selectItem(this, b)\<close> made so far, latest first. The array \<open>_curves\<close>
  can have holes (an array made longer through its \<open>length\<close>), so its elements are
  optional. Of the style the path keeps whether a stroke color is set, the stroke width,
  the join and the cap (strings, as the program compares them) and the miter limit.
\<close>

record path =
  p_id :: nat
  p_segments :: "segment list"
  p_closed :: bool
  p_curves :: "curve option list option"
  p_selectedSegmentCount :: int
  p_selectItem :: "bool list"
  p_length :: "number option"
  p_bounds :: "rectangle option"
  p_position :: "point option"
  p_strokeBounds :: "rectangle option"
  p_clockwise :: "bool option"
  p_strokeColor :: bool
  p_strokeWidth :: number
  p_strokeJoin :: string
  p_strokeCap :: string
  p_miterLimit :: number

datatype ChangeFlags = GEOMETRY | STROKE

text \<open>\<open>_changed\<close>: a geometry change drops every cache, a stroke change the stroke bounds.\<close>

fun changed :: "ChangeFlags \<Rightarrow> path \<Rightarrow> path" where
  "changed GEOMETRY p =
     p\<lparr>p_length := None, p_bounds := None, p_position := None,
       p_strokeBounds := None, p_clockwise := None\<rparr>"
| "changed STROKE p = p\<lparr>p_strokeBounds := None\<rparr>"

section \<open>Arrays and errors\<close>

text \<open>
  What the program throws: the TypeError of a property access on undefined, the string
  thrown by \<open>getCurrentSegment\<close> and the Error thrown by \<open>curveTo\<close> (with the parameter
  it reports).
\<close>

datatype error = TypeError | UseMoveToFirst | CannotPutCurve number

text \<open>\<open>xs[i]\<close>: undefined outside the array.\<close>

definition nth_opt :: "'a list \<Rightarrow> int \<Rightarrow> 'a option" where
  "nth_opt xs i = (if 0 \<le> i \<and> i < int (length xs) then Some (xs ! nat i) else None)"

text \<open>
  \<open>xs.splice(start, deleteCount, items...)\<close>: a negative start counts from the end, the
  start is clamped to the array and the count to what is left; the result is the removed
  elements and the array afterwards.
\<close>

definition splice_start :: "int \<Rightarrow> 'a list \<Rightarrow> nat" where
  "splice_start start xs =
     (let len = int (length xs)
      in nat (if start < 0 then max (len + start) 0 else min start len))"

definition splice :: "int \<Rightarrow> int \<Rightarrow> 'a list \<Rightarrow> 'a list \<Rightarrow> 'a list \<times> 'a list" where
  "splice start deleteCount items xs =
     (let len = int (length xs);
          st = splice_start start xs;
          cnt = nat (min (max deleteCount 0) (len - int st))
      in (take cnt (drop st xs), take st xs @ items @ drop (st + cnt) xs))"

text \<open>\<open>xs.length = n\<close>: cuts the array, or makes it longer with holes.\<close>

definition set_length :: "nat \<Rightarrow> 'a option list \<Rightarrow> 'a option list" where
  "set_length n xs = take n xs @ replicate (n - length xs) None"

text \<open>
  Modelled from the spec: \<open>Curve.create\<close> (Curve.js is not among the sources). A curve
  references the path and the two segments it spans.
\<close>

definition Curve_create :: "path \<Rightarrow> segment option \<Rightarrow> segment option \<Rightarrow> curve" where
  "Curve_create p s1 s2 = \<lparr>c_path = p_id p, c_segment1 = s1, c_segment2 = s2\<rparr>"

text \<open>
  Modelled from the spec: \<open>new Segment(segment)\<close> (Segment.js is not among the
  sources). The copy has the anchor, the handles and the selection state of the original
  and belongs to no path.
\<close>

definition Segment_copy :: "segment \<Rightarrow> segment" where
  "Segment_copy s = s\<lparr>s_path := None, s_index := None\<rparr>"

section \<open>The curve list\<close>

text \<open>
  \<open>getCurves\<close>: the cached list when there is one; otherwise one curve for every
  segment, one fewer when the path is open and has a segment, the last curve of a closed
  path ending at the first segment (\<open>segments[i + 1] || segments[0]\<close>).
\<close>

definition buildCurves :: "path \<Rightarrow> curve option list" where
  "buildCurves p =
     (let segments = p_segments p;
          length0 = length segments;
          length1 = (if \<not> p_closed p \<and> length0 > 0 then length0 - 1 else length0)
      in map (\<lambda>i. Some (Curve_create p (nth_opt segments (int i))
                      (case nth_opt segments (int i + 1) of
                         Some s \<Rightarrow> Some s
                       | None \<Rightarrow> nth_opt segments 0)))
           [0..<length1])"

definition getCurves :: "path \<Rightarrow> curve option list \<times> path" where
  "getCurves p =
     (case p_curves p of
        Some cs \<Rightarrow> (cs, p)
      | None \<Rightarrow> (let cs = buildCurves p in (cs, p\<lparr>p_curves := Some cs\<rparr>)))"

text \<open>
  \<open>setClosed\<close>: nothing happens when the flag has the value already. Otherwise an
  existing curve list gets its new length, and when the path was closed the closing curve
  is stored at the last index (a store at index \<open>-1\<close>, on a path with no segment, does
  not touch the array); then the geometry has changed.
\<close>

definition setClosed :: "bool \<Rightarrow> path \<Rightarrow> path" where
  "setClosed closed1 p =
     (if p_closed p \<noteq> closed1 then
        (let p1 = p\<lparr>p_closed := closed1\<rparr>;
             p2 = (case p_curves p1 of
                     None \<Rightarrow> p1
                   | Some curves \<Rightarrow>
                       (let length0 = length (p_segments p1);
                            length1 = (if \<not> closed1 \<and> length0 > 0 then length0 - 1 else length0);
                            curves1 = set_length length1 curves;
                            i = int length1 - 1;
                            curves2 = (if closed1 \<and> 0 \<le> i then
                                         curves1[nat i := Some (Curve_create p1
                                           (nth_opt (p_segments p1) i) (nth_opt (p_segments p1) 0))]
                                       else curves1)
                        in p1\<lparr>p_curves := Some curves2\<rparr>))
         in changed GEOMETRY p2)
      else p)"

section \<open>Adding and removing segments\<close>

text \<open>Re-pointing one end of the curve at an index, when there is a curve there.\<close>

definition set_segment1 :: "int \<Rightarrow> segment option \<Rightarrow> curve option list \<Rightarrow> curve option list" where
  "set_segment1 i s cs =
     (case nth_opt cs i of
        Some (Some curve) \<Rightarrow> cs[nat i := Some (curve\<lparr>c_segment1 := s\<rparr>)]
      | _ \<Rightarrow> cs)"

definition set_segment2 :: "int \<Rightarrow> segment option \<Rightarrow> curve option list \<Rightarrow> curve option list" where
  "set_segment2 i s cs =
     (case nth_opt cs i of
        Some (Some curve) \<Rightarrow> cs[nat i := Some (curve\<lparr>c_segment2 := s\<rparr>)]
      | _ \<Rightarrow> cs)"

text \<open>
  \<open>_updateSelection\<close>: the count goes up for a selected segment and down otherwise, and
  the project is told when the count is at most one afterwards.
\<close>

definition updateSelection :: "segment \<Rightarrow> path \<Rightarrow> path" where
  "updateSelection segment p =
     (let count = p_selectedSegmentCount p + (if s_selectionState segment \<noteq> 0 then 1 else - 1);
          p1 = p\<lparr>p_selectedSegmentCount := count\<rparr>
      in if count \<le> 1 then p1\<lparr>p_selectItem := (count = 1) # p_selectItem p1\<rparr> else p1)"

text \<open>
  The first loop of \<open>_add\<close>: a segment that has a path is replaced by a copy, then gets
  this path and the index \<open>index + i\<close>, and counts as selected when its state says so.
\<close>

fun add_scan :: "int \<Rightarrow> segment list \<Rightarrow> path \<Rightarrow> segment list \<times> path" where
  "add_scan index [] p = ([], p)"
| "add_scan index (s # segs) p =
     (let segment = (if s_path s \<noteq> None then Segment_copy s else s);
          segment1 = segment\<lparr>s_path := Some (p_id p), s_index := Some index\<rparr>;
          p1 = (if s_selectionState segment1 \<noteq> 0 then updateSelection segment1 p else p);
          (rest, p2) = add_scan (index + 1) segs p1
      in (segment1 # rest, p2))"

text \<open>
  The loop \<open>for (i = from; i < l; i++) segments[i]._index = i\<close>. A negative \<open>i\<close> reads
  outside the array, and the store into undefined throws.
\<close>

function reindex :: "int \<Rightarrow> int \<Rightarrow> segment list \<Rightarrow> error + segment list" where
  "reindex i l segments =
     (if i < l then
        (case nth_opt segments i of
           None \<Rightarrow> Inl TypeError
         | Some s \<Rightarrow> reindex (i + 1) l (segments[nat i := s\<lparr>s_index := Some i\<rparr>]))
      else Inr segments)"
  by pat_completeness auto
termination
  by (relation "measure (\<lambda>(i, l, segments). nat (l - i))") auto

declare reindex.simps [simp del]

text \<open>
  \<open>_add(segs, index)\<close>, with \<open>index\<close> absent for an append. The result is the array
  \<open>segs\<close> as returned and the path. The elements of \<open>segs\<close> are the objects stored
  in the path, so they are read back from the place the splice put them (the re-indexing
  loop reaches them when \<open>index\<close> is negative). With a curve list present and an
  insertion index above zero, exactly one curve is spliced in, at \<open>index - 1\<close>, whatever
  the number of segments added.
\<close>

definition add :: "segment list \<Rightarrow> int option \<Rightarrow> path \<Rightarrow> error + (segment list \<times> path)" where
  "add segs index0 p =
     (let curves = p_curves p;
          amount = int (length segs);
          append = (index0 = None);
          index = (case index0 of None \<Rightarrow> int (length (p_segments p)) | Some i \<Rightarrow> i);
          (segs1, p1) = add_scan index segs p;
          inserted = (if append then Inr (p_segments p1 @ segs1)
                      else (let segments1 = snd (splice index 0 segs1 (p_segments p1))
                            in reindex (index + amount) (int (length segments1)) segments1))
      in case inserted of
           Inl e \<Rightarrow> Inl e
         | Inr segments \<Rightarrow>
             (let p2 = p1\<lparr>p_segments := segments\<rparr>;
                  p3 = (case curves of
                          None \<Rightarrow> p2
                        | Some cs \<Rightarrow>
                            (let index1 = index - 1
                             in if 0 \<le> index1 then
                                  (let cs1 = snd (splice index1 0
                                         [Some (Curve_create p2 (nth_opt segments index1)
                                            (nth_opt segments (index1 + 1)))] cs);
                                       cs2 = set_segment1 (index1 + amount)
                                               (nth_opt segments (index1 + amount)) cs1
                                   in p2\<lparr>p_curves := Some cs2\<rparr>)
                                else p2));
                  segs2 = (if append then segs1
                           else take (length segs1)
                                  (drop (splice_start index (p_segments p1)) segments))
              in Inr (segs2, changed GEOMETRY p3)))"

text \<open>
  The loop of \<open>removeSegments\<close> over the removed segments: a selected one is deselected
  and the count updated. The statement \<open>removed._index = removed._path = undefined\<close> of
  the loop body assigns two properties of the array \<open>removed\<close>, not of the segment, so
  the segment keeps its \<open>_path\<close> and its \<open>_index\<close>.
\<close>

fun remove_scan :: "segment list \<Rightarrow> path \<Rightarrow> segment list \<times> path" where
  "remove_scan [] p = ([], p)"
| "remove_scan (s # removed) p =
     (let (segment, p1) =
            (if s_selectionState s \<noteq> 0 then
               (let segment = s\<lparr>s_selectionState := 0\<rparr> in (segment, updateSelection segment p))
             else (s, p));
          (rest, p2) = remove_scan removed p1
      in (segment # rest, p2))"

text \<open>
  \<open>removeSegments(from, to)\<close>: \<open>from\<close> defaults to zero and \<open>to\<close> to the last index
  (\<open>Base.pick\<close> takes its first argument unless it is undefined). Nothing changes when
  the splice removes nothing. The result is the array of removed segments and the path.
\<close>

definition removeSegments :: "int option \<Rightarrow> int option \<Rightarrow> path \<Rightarrow> error + (segment list \<times> path)" where
  "removeSegments from0 to0 p =
     (let from = (case from0 of None \<Rightarrow> 0 | Some f \<Rightarrow> f);
          to = (case to0 of None \<Rightarrow> int (length (p_segments p)) - 1 | Some t \<Rightarrow> t);
          curves = p_curves p;
          last = (to \<ge> int (length (p_segments p)));
          (removed0, segments0) = splice from (to - from) [] (p_segments p);
          amount = int (length removed0)
      in if amount = 0 then Inr (removed0, p)
         else
           (let (removed, p1) = remove_scan removed0 p
            in case reindex from (int (length segments0)) segments0 of
                 Inl e \<Rightarrow> Inl e
               | Inr segments \<Rightarrow>
                   (let p2 = p1\<lparr>p_segments := segments\<rparr>;
                        p3 = (case curves of
                                None \<Rightarrow> p2
                              | Some cs \<Rightarrow>
                                  (let cs1 = snd (splice from amount [] cs);
                                       cs2 = set_segment2 (from - 1) (nth_opt segments from) cs1;
                                       cs3 = set_segment1 from (nth_opt segments from) cs2;
                                       cs4 = (if last \<and> p_closed p2 then
                                                set_segment2 (int (length cs3) - 1)
                                                  (nth_opt segments 0) cs3
                                              else cs3)
                                   in p2\<lparr>p_curves := Some cs4\<rparr>))
                    in Inr (removed, changed GEOMETRY p3))))"

section \<open>Reversal\<close>

text \<open>
  \<open>reverse\<close>: the list is reversed in place, then every segment has its two handles
  exchanged, and the clockwise flag is negated when it is defined. Nothing else is
  touched (no cache is dropped, no index is rewritten).
\<close>

definition swapHandles :: "segment \<Rightarrow> segment" where
  "swapHandles s = s\<lparr>s_handleIn := s_handleOut s, s_handleOut := s_handleIn s\<rparr>"

definition reverse :: "path \<Rightarrow> path" where
  "reverse p =
     p\<lparr>p_segments := map swapHandles (rev (p_segments p)),
       p_clockwise := (case p_clockwise p of None \<Rightarrow> None | Some c \<Rightarrow> Some (\<not> c))\<rparr>"

section \<open>Construction\<close>

text \<open>
  Modelled from the spec: the constructors of Point and Segment (Point.js and Segment.js
  are not among the sources). A new segment has an anchor and two handles, the zero
  vector where none is given, and is unattached and unselected.
\<close>

definition Point_new :: "real \<Rightarrow> real \<Rightarrow> point" where
  "Point_new a b = \<lparr>pt_x = Fin a, pt_y = Fin b\<rparr>"

definition Segment_new :: "point \<Rightarrow> point \<Rightarrow> point \<Rightarrow> segment" where
  "Segment_new pt hIn hOut =
     \<lparr>s_point = pt, s_handleIn = hIn, s_handleOut = hOut,
       s_path = None, s_index = None, s_selectionState = 0\<rparr>"

definition corner :: "point \<Rightarrow> segment" where
  "corner pt = Segment_new pt (Point_new 0 0) (Point_new 0 0)"

text \<open>
  \<open>initialize\<close>: a path starts open, with no selected segment, an empty segment list
  and no cache, and the segments given are added to it. The style of a new path is set
  outside the sources; here it has no stroke color, width 1, a miter join with limit 10
  and a butt cap, and no property below depends on these values.
\<close>

definition blank :: "nat \<Rightarrow> path" where
  "blank pid =
     \<lparr>p_id = pid, p_segments = [], p_closed = False, p_curves = None,
       p_selectedSegmentCount = 0, p_selectItem = [], p_length = None, p_bounds = None,
       p_position = None, p_strokeBounds = None, p_clockwise = None,
       p_strokeColor = False, p_strokeWidth = Fin 1, p_strokeJoin = ''miter'',
       p_strokeCap = ''butt'', p_miterLimit = Fin 10\<rparr>"

definition initialize :: "nat \<Rightarrow> segment list \<Rightarrow> error + (segment list \<times> path)" where
  "initialize pid segments = add segments None (blank pid)"

section \<open>The curve count of the specification\<close>

text \<open>
  The number of curves the specification asks for: the number of segments of a closed
  path, one fewer for an open path, never below zero. A path is in sync when it has no
  curve list or one of that length.
\<close>

definition curveCount :: "path \<Rightarrow> nat" where
  "curveCount p = (if p_closed p then length (p_segments p) else length (p_segments p) - 1)"

definition curves_in_sync :: "path \<Rightarrow> bool" where
  "curves_in_sync p =
     (case p_curves p of None \<Rightarrow> True | Some cs \<Rightarrow> length cs = curveCount p)"

section \<open>The bookkeeping of the specification\<close>

text \<open>
  What the specification asks of the segments a path contains: each refers to this path
  and carries its own position in the list as its index.
\<close>

definition attached :: "path \<Rightarrow> bool" where
  "attached p =
     (\<forall>i<length (p_segments p).
        s_path (p_segments p ! i) = Some (p_id p) \<and> s_index (p_segments p ! i) = Some (int i))"

section \<open>Example paths\<close>

text \<open>A closed path with the single segment (10, 20).\<close>

definition single_closed :: path where
  "single_closed =
     (case initialize 1 [corner (Point_new 10 20)] of
        Inr (segs, p) \<Rightarrow> setClosed True p
      | Inl e \<Rightarrow> blank 1)"

text \<open>An open path with two segments whose curves have been asked for.\<close>

definition two_open :: path where
  "two_open =
     (case initialize 1 [corner (Point_new 10 20), corner (Point_new 30 40)] of
        Inr (segs, p) \<Rightarrow> snd (getCurves p)
      | Inl e \<Rightarrow> blank 1)"

section \<open>Points\<close>

text \<open>
  Modelled from the spec: the vector operations of Point (Point.js is not among the
  sources): sum, difference, product and quotient by a number, each coordinate by
  coordinate, and \<open>isNaN\<close>, true when a coordinate is NaN.
\<close>

definition Point_add :: "point \<Rightarrow> point \<Rightarrow> point" where
  "Point_add a b = \<lparr>pt_x = pt_x a + pt_x b, pt_y = pt_y a + pt_y b\<rparr>"

definition Point_subtract :: "point \<Rightarrow> point \<Rightarrow> point" where
  "Point_subtract a b = \<lparr>pt_x = pt_x a - pt_x b, pt_y = pt_y a - pt_y b\<rparr>"

definition Point_multiply :: "point \<Rightarrow> number \<Rightarrow> point" where
  "Point_multiply a k = \<lparr>pt_x = pt_x a * k, pt_y = pt_y a * k\<rparr>"

definition Point_divide :: "point \<Rightarrow> number \<Rightarrow> point" where
  "Point_divide a k = \<lparr>pt_x = pt_x a / k, pt_y = pt_y a / k\<rparr>"

definition Point_isNaN :: "point \<Rightarrow> bool" where
  "Point_isNaN a = (isNaN (pt_x a) \<or> isNaN (pt_y a))"

section \<open>Drawing commands\<close>

text \<open>Running one command after another; a throw ends the run.\<close>

definition and_then :: "error + 'a \<Rightarrow> ('a \<Rightarrow> error + 'b) \<Rightarrow> error + 'b" where
  "and_then r f = (case r of Inl e \<Rightarrow> Inl e | Inr v \<Rightarrow> f v)"

text \<open>\<open>getCurrentSegment\<close>: the last segment, and a throw when there is none.\<close>

definition getCurrentSegment :: "path \<Rightarrow> error + segment" where
  "getCurrentSegment that =
     (let segments = p_segments that
      in if length segments = 0 then Inl UseMoveToFirst
         else Inr (segments ! (length segments - 1)))"

text \<open>
  Modelled from the spec: \<open>setHandleOut\<close> of Segment (Segment.js is not among the
  sources), called on the current segment: the outgoing handle of the last segment of
  the path is replaced and the path is told that its geometry changed.
\<close>

definition current_setHandleOut :: "point \<Rightarrow> path \<Rightarrow> path" where
  "current_setHandleOut h p =
     (let segments = p_segments p; i = length segments - 1
      in changed GEOMETRY (p\<lparr>p_segments := segments[i := (segments ! i)\<lparr>s_handleOut := h\<rparr>]\<rparr>))"

text \<open>\<open>moveTo\<close> adds a segment to a path without segments only; \<open>lineTo\<close> always adds one.\<close>

definition moveTo :: "point \<Rightarrow> path \<Rightarrow> error + path" where
  "moveTo pt p =
     (if length (p_segments p) = 0 then and_then (add [corner pt] None p) (\<lambda>(segs, p1). Inr p1)
      else Inr p)"

definition lineTo :: "point \<Rightarrow> path \<Rightarrow> error + path" where
  "lineTo pt p = and_then (add [corner pt] None p) (\<lambda>(segs, p1). Inr p1)"

definition closePath :: "path \<Rightarrow> path" where
  "closePath p = setClosed True p"

text \<open>
  \<open>cubicCurveTo\<close>: the current segment gets the first handle, made relative, and a
  segment at \<open>to\<close> is added whose incoming handle is the second one, made relative.
\<close>

definition cubicCurveTo :: "point \<Rightarrow> point \<Rightarrow> point \<Rightarrow> path \<Rightarrow> error + path" where
  "cubicCurveTo handle1 handle2 to p =
     and_then (getCurrentSegment p) (\<lambda>current.
       (let p1 = current_setHandleOut (Point_subtract handle1 (s_point current)) p
        in and_then (add [Segment_new to (Point_subtract handle2 to) (Point_new 0 0)] None p1)
             (\<lambda>(segs, p2). Inr p2)))"

definition quadraticCurveTo :: "point \<Rightarrow> point \<Rightarrow> path \<Rightarrow> error + path" where
  "quadraticCurveTo handle to p =
     and_then (getCurrentSegment p) (\<lambda>segment.
       (let current = s_point segment
        in cubicCurveTo
             (Point_add handle (Point_multiply (Point_subtract current handle) (Fin (1 / 3))))
             (Point_add handle (Point_multiply (Point_subtract to handle) (Fin (1 / 3))))
             to p))"

text \<open>
  \<open>curveTo\<close>, the parameter defaulting to one half: the handle is
  \<open>(through - current * t1 * t1 - to * t * t) / (2 * t * t1)\<close>, and the command throws
  when \<open>isNaN\<close> holds of it.
\<close>

definition curveTo :: "point \<Rightarrow> point \<Rightarrow> number option \<Rightarrow> path \<Rightarrow> error + path" where
  "curveTo through to parameter p =
     (let t = (case parameter of None \<Rightarrow> Fin (1 / 2) | Some t0 \<Rightarrow> t0);
          t1 = Fin 1 - t
      in and_then (getCurrentSegment p) (\<lambda>segment.
           (let current = s_point segment;
                handle = Point_divide
                           (Point_subtract
                              (Point_subtract through (Point_multiply current (t1 * t1)))
                              (Point_multiply to (t * t)))
                           (Fin 2 * t * t1)
            in if Point_isNaN handle then Inl (CannotPutCurve t)
               else quadraticCurveTo handle to p)))"

text \<open>
  \<open>lineBy\<close> and \<open>curveBy\<close> hand over to \<open>lineTo\<close> and \<open>curveTo\<close> with the vectors
  added to the current point.
\<close>

definition lineBy :: "point \<Rightarrow> path \<Rightarrow> error + path" where
  "lineBy vector p =
     and_then (getCurrentSegment p) (\<lambda>current. lineTo (Point_add (s_point current) vector) p)"

definition curveBy :: "point \<Rightarrow> point \<Rightarrow> number option \<Rightarrow> path \<Rightarrow> error + path" where
  "curveBy throughVector toVector parameter p =
     and_then (getCurrentSegment p) (\<lambda>segment.
       (let current = s_point segment
        in curveTo (Point_add current throughVector) (Point_add current toVector) parameter p))"

text \<open>
  \<open>arcBy\<close> calls \<open>arcBy\<close> again, with the vectors added to the current point, and not
  \<open>arcTo\<close>. A call that does not return has the value \<open>None\<close>.
\<close>

partial_function (option) arcBy :: "point \<Rightarrow> point \<Rightarrow> path \<Rightarrow> (error + path) option" where
  "arcBy throughVector toVector p =
     (case getCurrentSegment p of
        Inl e \<Rightarrow> Some (Inl e)
      | Inr segment \<Rightarrow>
          (let current = s_point segment
           in arcBy (Point_add current throughVector) (Point_add current toVector) p))"

text \<open>The path after \<open>moveTo(0, 0)\<close>.\<close>

definition at_origin :: path where
  "at_origin = (case moveTo (Point_new 0 0) (blank 1) of Inr p \<Rightarrow> p | Inl e \<Rightarrow> blank 1)"

section \<open>Smoothing\<close>

text \<open>
  Modelled from the spec: \<open>setHandleIn\<close> and \<open>setHandleOut\<close> of Segment (Segment.js is
  not among the sources), called on the segment at an index of the path: the handle of
  that segment is replaced and the path is told that its geometry changed.
\<close>

definition setHandleIn_at :: "nat \<Rightarrow> point \<Rightarrow> path \<Rightarrow> path" where
  "setHandleIn_at i h p =
     (let segments = p_segments p
      in changed GEOMETRY (p\<lparr>p_segments := segments[i := (segments ! i)\<lparr>s_handleIn := h\<rparr>]\<rparr>))"

definition setHandleOut_at :: "nat \<Rightarrow> point \<Rightarrow> path \<Rightarrow> path" where
  "setHandleOut_at i h p =
     (let segments = p_segments p
      in changed GEOMETRY (p\<lparr>p_segments := segments[i := (segments ! i)\<lparr>s_handleOut := h\<rparr>]\<rparr>))"

text \<open>
  Reading a number from an array: a hole or an index past the end reads as undefined,
  which the arithmetic that follows turns into NaN.
\<close>

definition num_at :: "number list \<Rightarrow> nat \<Rightarrow> number" where
  "num_at xs i = (if i < length xs then xs ! i else NaN)"

text \<open>
  \<open>getFirstControlPoints\<close>: the forward loop fills \<open>x\<close> and \<open>tmp\<close> from index 1 on
  (\<open>tmp[0]\<close> stays a hole), the second loop substitutes back from the end.
\<close>

definition forward_step ::
  "nat \<Rightarrow> number list \<Rightarrow> nat \<Rightarrow> number list \<times> number list \<times> number \<Rightarrow>
   number list \<times> number list \<times> number" where
  "forward_step n rhs i st =
     (case st of (x, tmp, b) \<Rightarrow>
        (let t = Fin 1 / b;
             b1 = (if i < n - 1 then Fin 4 else Fin 2) - t
         in (x @ [(num_at rhs i - num_at x (i - 1)) / b1], tmp @ [t], b1)))"

definition back_step :: "nat \<Rightarrow> number list \<Rightarrow> nat \<Rightarrow> number list \<Rightarrow> number list" where
  "back_step n tmp i x =
     x[n - i - 1 := num_at x (n - i - 1) - num_at tmp (n - i) * num_at x (n - i)]"

definition getFirstControlPoints :: "number list \<Rightarrow> number list" where
  "getFirstControlPoints rhs =
     (let n = length rhs;
          b = Fin 2;
          (x, tmp, b1) = fold (forward_step n rhs) [1..<n] ([num_at rhs 0 / b], [NaN], b)
      in fold (back_step n tmp) [1..<n] x)"

text \<open>
  The right hand side for one coordinate: \<open>rhs[i] = 4 * knots[i] + 2 * knots[i + 1]\<close>
  for \<open>0 < i < n - 1\<close>, then \<open>rhs[0] = knots[0] + 2 * knots[1]\<close>, then
  \<open>rhs[n - 1] = 3 * knots[n - 1]\<close>.
\<close>

definition smooth_rhs :: "(point \<Rightarrow> number) \<Rightarrow> nat \<Rightarrow> point list \<Rightarrow> number list" where
  "smooth_rhs co n knots =
     map (\<lambda>i. if i = n - 1 then Fin 3 * co (knots ! (n - 1))
               else if i = 0 then co (knots ! 0) + Fin 2 * co (knots ! 1)
               else Fin 4 * co (knots ! i) + Fin 2 * co (knots ! (i + 1)))
       [0..<n]"

text \<open>One round of the fading between the overlapping ends of a closed path.\<close>

definition average_step ::
  "nat \<Rightarrow> nat \<Rightarrow> nat \<Rightarrow> number list \<times> number list \<Rightarrow> number list \<times> number list" where
  "average_step sz overlap i xy =
     (case xy of (x, y) \<Rightarrow>
        (let j = sz + i;
             f1 = Fin (real i / real overlap);
             f2 = Fin 1 - f1;
             x1 = x[j := num_at x i * f1 + num_at x j * f2];
             y1 = y[j := num_at y i * f1 + num_at y j * f2];
             ie = i + overlap;
             je = j + overlap;
             x2 = x1[je := num_at x1 ie * f2 + num_at x1 je * f1];
             y2 = y1[je := num_at y1 ie * f2 + num_at y1 je * f1]
         in (x2, y2)))"

text \<open>
  One round of the loop that sets the handles, for the index \<open>i\<close>: the incoming handle
  computed in the round before, then the outgoing handle and the next incoming one.
\<close>

definition handle_step ::
  "nat \<Rightarrow> nat \<Rightarrow> point list \<Rightarrow> number list \<Rightarrow> number list \<Rightarrow> nat \<Rightarrow>
   path \<times> point option \<Rightarrow> path \<times> point option" where
  "handle_step overlap n knots x y i st =
     (case st of (p, handleIn) \<Rightarrow>
        (let k = i - overlap;
             point = s_point (p_segments p ! k);
             p1 = (case handleIn of
                     Some h \<Rightarrow> setHandleIn_at k (Point_subtract h point) p
                   | None \<Rightarrow> p)
         in if i < n then
              (setHandleOut_at k
                 (Point_subtract \<lparr>pt_x = num_at x i, pt_y = num_at y i\<rparr> point) p1,
               Some (if i < n - 1 then
                       \<lparr>pt_x = Fin 2 * pt_x (knots ! (i + 1)) - num_at x (i + 1),
                        pt_y = Fin 2 * pt_y (knots ! (i + 1)) - num_at y (i + 1)\<rparr>
                     else
                       \<lparr>pt_x = (pt_x (knots ! n) + num_at x (n - 1)) / Fin 2,
                        pt_y = (pt_y (knots ! n) + num_at y (n - 1)) / Fin 2\<rparr>))
            else (p1, handleIn)))"

text \<open>
  The loop that sets the handles, from \<open>overlap\<close> to \<open>n - overlap\<close>, and after it the
  incoming handle of the first segment of a closed path.
\<close>

definition set_handles ::
  "nat \<Rightarrow> nat \<Rightarrow> point list \<Rightarrow> number list \<Rightarrow> number list \<Rightarrow> path \<Rightarrow> path" where
  "set_handles overlap n knots x y p =
     (let (p1, handleIn) =
            fold (handle_step overlap n knots x y) [overlap..<n - overlap + 1] (p, None)
      in if p_closed p then
           (case handleIn of
              Some h \<Rightarrow> setHandleIn_at 0 (Point_subtract h (s_point (p_segments p1 ! 0))) p1
            | None \<Rightarrow> p1)
         else p1)"

text \<open>
  \<open>smooth\<close>: nothing is done for at most two segments. A closed path has up to four
  points of each end repeated at the other end of the knots, and its two solutions are
  faded into each other before the handles are set.
\<close>

definition smooth :: "path \<Rightarrow> path" where
  "smooth p =
     (let segments = p_segments p;
          size = length segments
      in if size \<le> 2 then p
         else
           (let overlap = (if p_closed p then min size 4 else 0);
                n0 = (if p_closed p then size + min size overlap * 2 else size - 1);
                knots = (if p_closed p then
                           map s_point (drop (size - overlap) segments) @
                           map s_point segments @
                           map s_point (take overlap segments)
                         else map s_point segments);
                x0 = getFirstControlPoints (smooth_rhs pt_x n0 knots);
                y0 = getFirstControlPoints (smooth_rhs pt_y n0 knots);
                (x, y) = (if p_closed p then
                            fold (average_step size overlap) [0..<overlap] (x0, y0)
                          else (x0, y0));
                n = (if p_closed p then n0 - 1 else n0)
            in set_handles overlap n knots x y p))"

text \<open>The open path through (0, 0), (100, 0) and (100, 100).\<close>

definition three_open :: path where
  "three_open =
     (case initialize 1 [corner (Point_new 0 0), corner (Point_new 100 0),
                         corner (Point_new 100 100)] of
        Inr (segs, p) \<Rightarrow> p
      | Inl e \<Rightarrow> blank 1)"

section \<open>Orientation\<close>

text \<open>
  \<open>isClockwise\<close>: the cached flag when there is one. Otherwise the points and the
  handle ends of every curve, the closing one included, are run through \<open>edge\<close>, which
  adds \<open>(xPre - x) * (y + yPre)\<close> to the sum from the second point on; the path is
  clockwise when the sum is above zero. The flag is not stored.
\<close>

definition edge ::
  "number \<Rightarrow> number \<Rightarrow> number \<times> (number \<times> number) option \<Rightarrow>
   number \<times> (number \<times> number) option" where
  "edge x y st =
     (case st of (sum1, pre) \<Rightarrow>
        ((case pre of
            Some (xPre, yPre) \<Rightarrow> sum1 + (xPre - x) * (y + yPre)
          | None \<Rightarrow> sum1),
         Some (x, y)))"

definition clockwise_step ::
  "segment list \<Rightarrow> nat \<Rightarrow> number \<times> (number \<times> number) option \<Rightarrow>
   number \<times> (number \<times> number) option" where
  "clockwise_step segments i st =
     (let l = length segments;
          seg1 = segments ! i;
          seg2 = segments ! (if i + 1 < l then i + 1 else 0);
          point1 = s_point seg1;
          handle1 = s_handleOut seg1;
          handle2 = s_handleIn seg2;
          point2 = s_point seg2
      in edge (pt_x point2) (pt_y point2)
           (edge (pt_x point2 + pt_x handle2) (pt_y point2 + pt_y handle2)
              (edge (pt_x point1 + pt_x handle1) (pt_y point1 + pt_y handle1)
                 (edge (pt_x point1) (pt_y point1) st))))"

definition isClockwise :: "path \<Rightarrow> bool" where
  "isClockwise p =
     (case p_clockwise p of
        Some c \<Rightarrow> c
      | None \<Rightarrow>
          (let segments = p_segments p;
               (sum1, pre) = fold (clockwise_step segments) [0..<length segments] (Fin 0, None)
           in sum1 > Fin 0))"

section \<open>Length\<close>

text \<open>\<open>Math.sqrt\<close>: NaN below zero.\<close>

fun num_sqrt :: "number \<Rightarrow> number" where
  "num_sqrt (Fin a) = (if a < 0 then NaN else Fin (sqrt a))"
| "num_sqrt PosInf = PosInf"
| "num_sqrt NegInf = NaN"
| "num_sqrt NaN = NaN"

text \<open>
  Modelled from the spec: \<open>getLength\<close> of Curve (Curve.js is not among the sources).
  The length of a curve is its arc length. A curve whose handles (the outgoing one of
  its first segment, the incoming one of its second) are both zero is a straight line,
  and its arc length is the distance between its two anchors; the length of any other
  curve is a numerical estimate, which is the parameter \<open>estimate\<close> here, applied to the
  four control points. A curve with a segment missing has no length (the read throws).
\<close>

definition isZero :: "point \<Rightarrow> bool" where
  "isZero a = (num_eq (pt_x a) (Fin 0) \<and> num_eq (pt_y a) (Fin 0))"

definition Curve_getLength ::
  "(point \<Rightarrow> point \<Rightarrow> point \<Rightarrow> point \<Rightarrow> number) \<Rightarrow> curve \<Rightarrow> error + number" where
  "Curve_getLength estimate c =
     (case c_segment1 c of
        None \<Rightarrow> Inl TypeError
      | Some s1 \<Rightarrow>
          (case c_segment2 c of
             None \<Rightarrow> Inl TypeError
           | Some s2 \<Rightarrow>
               (let p1 = s_point s1; p2 = s_point s2
                in if isZero (s_handleOut s1) \<and> isZero (s_handleIn s2) then
                     (let dx = pt_x p2 - pt_x p1; dy = pt_y p2 - pt_y p1
                      in Inr (num_sqrt (dx * dx + dy * dy)))
                   else Inr (estimate p1 (Point_add p1 (s_handleOut s1))
                               (Point_add p2 (s_handleIn s2)) p2))))"

text \<open>
  The loop of \<open>getLength\<close>: the lengths of the curves are added to \<open>_length\<close>, which
  starts at zero. A hole in the curve list throws.
\<close>

fun add_lengths ::
  "(curve \<Rightarrow> error + number) \<Rightarrow> curve option list \<Rightarrow> number \<Rightarrow> error + number" where
  "add_lengths len [] acc = Inr acc"
| "add_lengths len (None # curves) acc = Inl TypeError"
| "add_lengths len (Some c # curves) acc =
     (case len c of Inl e \<Rightarrow> Inl e | Inr l \<Rightarrow> add_lengths len curves (acc + l))"

text \<open>
  \<open>getLength\<close> of a path, given the length of a curve: the cached length, or the sum
  over the curves of \<open>getCurves\<close>, which is then cached.
\<close>

definition getLength :: "(curve \<Rightarrow> error + number) \<Rightarrow> path \<Rightarrow> error + (number \<times> path)" where
  "getLength len p =
     (case p_length p of
        Some l \<Rightarrow> Inr (l, p)
      | None \<Rightarrow>
          (let (curves, p1) = getCurves p
           in case add_lengths len curves (Fin 0) of
                Inl e \<Rightarrow> Inl e
              | Inr l \<Rightarrow> Inr (l, p1\<lparr>p_length := Some l\<rparr>)))"

section \<open>Bounds\<close>

text \<open>
  Modelled from the spec: \<open>_transformCoordinates\<close> of Segment, called with no matrix
  (Segment.js is not among the sources; only the calls without a matrix are modelled).
  It writes the anchor, then the end of the incoming handle, then the end of the outgoing
  handle, in absolute coordinates.
\<close>

definition transformCoordinates :: "segment \<Rightarrow> number list" where
  "transformCoordinates s =
     [pt_x (s_point s), pt_y (s_point s),
      pt_x (s_handleIn s) + pt_x (s_point s), pt_y (s_handleIn s) + pt_y (s_point s),
      pt_x (s_handleOut s) + pt_x (s_point s), pt_y (s_handleOut s) + pt_y (s_point s)]"

text \<open>
  The inner function \<open>add\<close> of \<open>getBounds\<close>, for one axis: \<open>bounds_add\<close> is the update
  of the minimum and the maximum by a value and a padding, \<open>bezier\<close> the polynomial at
  \<open>t\<close>, and \<open>add_root\<close> the test for a good root followed by \<open>add(null, t)\<close>.
\<close>

definition bounds_add :: "number \<Rightarrow> number \<Rightarrow> number \<times> number \<Rightarrow> number \<times> number" where
  "bounds_add v padding mm =
     (case mm of (mn, mx) \<Rightarrow>
        (let left = v - padding; right = v + padding
         in (if left < mn then left else mn, if right > mx then right else mx)))"

definition bezier :: "number \<Rightarrow> number \<Rightarrow> number \<Rightarrow> number \<Rightarrow> number \<Rightarrow> number" where
  "bezier v0 v1 v2 v3 t =
     (let u = Fin 1 - t
      in u * u * u * v0 + Fin 3 * u * u * t * v1 + Fin 3 * u * t * t * v2 + t * t * t * v3)"

definition add_root ::
  "number \<Rightarrow> number \<Rightarrow> number \<Rightarrow> number \<Rightarrow> number \<Rightarrow> number \<Rightarrow> number \<Rightarrow>
   number \<times> number \<Rightarrow> number \<times> number" where
  "add_root tMin v0 v1 v2 v3 padding t mm =
     (if tMin < t \<and> t < Fin 1 - tMin then bounds_add (bezier v0 v1 v2 v3 t) padding mm else mm)"

text \<open>
  The body of the loop over the two axes in \<open>processSegment\<close>: the anchor is added
  without padding, then the roots of the derivative that lie between \<open>tMin\<close> and
  \<open>tMax\<close>, with the padding.
\<close>

definition process_axis ::
  "number \<Rightarrow> number \<Rightarrow> number \<Rightarrow> number \<Rightarrow> number \<Rightarrow> number \<Rightarrow>
   number \<times> number \<Rightarrow> number \<times> number" where
  "process_axis tMin padding v0 v1 v2 v3 mm =
     (let mm1 = bounds_add v3 (Fin 0) mm;
          a = Fin 3 * (v1 - v2) - v0 + v3;
          b = Fin 2 * (v0 + v2) - Fin 4 * v1;
          c = v1 - v0
      in if num_eq a (Fin 0) then
           (if num_eq b (Fin 0) then mm1
            else add_root tMin v0 v1 v2 v3 padding (- c / b) mm1)
         else
           (let b2ac = b * b - Fin 4 * a * c
            in if b2ac < Fin 0 then mm1
               else
                 (let sqrt1 = num_sqrt b2ac;
                      f = Fin 1 / (a * Fin (- 2));
                      t1 = (b - sqrt1) * f;
                      t2 = (b + sqrt1) * f
                  in add_root tMin v0 v1 v2 v3 padding t2
                       (add_root tMin v0 v1 v2 v3 padding t1 mm1))))"

text \<open>
  \<open>processSegment\<close>: both axes, from the coordinates of the segment before, which are
  then replaced by those of this segment. The state is the bounds on the two axes and
  \<open>prevCoords\<close>.
\<close>

definition processSegment ::
  "number \<Rightarrow> (number \<times> number) option \<Rightarrow> segment \<Rightarrow>
   (number \<times> number) \<times> (number \<times> number) \<times> number list \<Rightarrow>
   (number \<times> number) \<times> (number \<times> number) \<times> number list" where
  "processSegment tMin strokePadding segment st =
     (case st of (mmx, mmy, prevCoords) \<Rightarrow>
        (let coords = transformCoordinates segment;
             padx = (case strokePadding of Some (px, py) \<Rightarrow> px | None \<Rightarrow> Fin 0);
             pady = (case strokePadding of Some (px, py) \<Rightarrow> py | None \<Rightarrow> Fin 0)
         in (process_axis tMin padx (prevCoords ! 0) (prevCoords ! 4) (coords ! 2) (coords ! 0) mmx,
             process_axis tMin pady (prevCoords ! 1) (prevCoords ! 5) (coords ! 3) (coords ! 1) mmy,
             coords)))"

text \<open>
  The function \<open>getBounds(that, matrix, strokePadding)\<close> without a matrix; the
  tolerance \<open>Numerical.TOLERANCE\<close> is not among the sources and is the parameter
  \<open>tMin\<close>. A path without segments has no bounds.
\<close>

definition Path_getBounds ::
  "number \<Rightarrow> (number \<times> number) option \<Rightarrow> path \<Rightarrow> rectangle option" where
  "Path_getBounds tMin strokePadding that =
     (case p_segments that of
        [] \<Rightarrow> None
      | first # rest \<Rightarrow>
          (let prevCoords = transformCoordinates first;
               mn = take 2 prevCoords;
               st = fold (processSegment tMin strokePadding)
                      (rest @ (if p_closed that then [first] else []))
                      ((mn ! 0, mn ! 0), (mn ! 1, mn ! 1), prevCoords)
           in case st of ((min0, max0), (min1, max1), coords) \<Rightarrow>
                Some \<lparr>r_x = min0, r_y = min1, r_width = max0 - min0, r_height = max1 - min1\<rparr>))"

text \<open>
  The method \<open>getBounds()\<close>, called without a matrix: the cached rectangle, or the one
  computed, which is then cached; reading the fields of absent bounds throws.
\<close>

definition getBounds :: "number \<Rightarrow> path \<Rightarrow> error + (rectangle \<times> path)" where
  "getBounds tMin p =
     (case p_bounds p of
        Some r \<Rightarrow> Inr (r, p)
      | None \<Rightarrow>
          (case Path_getBounds tMin None p of
             None \<Rightarrow> Inl TypeError
           | Some bounds \<Rightarrow> Inr (bounds, p\<lparr>p_bounds := Some bounds\<rparr>)))"

text \<open>
  The path of \<open>moveTo(0, 0); lineTo(100, 0); lineTo(100, 100); lineTo(0, 100);
  closePath()\<close>.
\<close>

definition square :: "error + path" where
  "square =
     and_then (moveTo (Point_new 0 0) (blank 1)) (\<lambda>p1.
     and_then (lineTo (Point_new 100 0) p1) (\<lambda>p2.
     and_then (lineTo (Point_new 100 100) p2) (\<lambda>p3.
     and_then (lineTo (Point_new 0 100) p3) (\<lambda>p4.
     Inr (closePath p4)))))"

text \<open>The square as a record: four corners, attached to path 1, closed, no cache.\<close>

definition vertex :: "real \<Rightarrow> real \<Rightarrow> int \<Rightarrow> segment" where
  "vertex a b i = (corner (Point_new a b))\<lparr>s_path := Some 1, s_index := Some i\<rparr>"

definition square_path :: path where
  "square_path =
     (blank 1)\<lparr>p_segments := [vertex 0 0 0, vertex 100 0 1, vertex 100 100 2, vertex 0 100 3],
       p_closed := True\<rparr>"

section \<open>What smoothing may not change\<close>

text \<open>
  A segment without its handles: the anchor, the path, the index and the selection
  state are kept, both handles are set to zero. Two segments that agree without their
  handles differ in their handles at most. The skeleton of a path is its segments
  without their handles, and its closed flag.
\<close>

definition without_handles :: "segment \<Rightarrow> segment" where
  "without_handles s = s\<lparr>s_handleIn := Point_new 0 0, s_handleOut := Point_new 0 0\<rparr>"

definition skeleton :: "path \<Rightarrow> segment list \<times> bool" where
  "skeleton p = (map without_handles (p_segments p), p_closed p)"

section \<open>Locations\<close>

text \<open>
  Modelled from the spec: a CurveLocation is a curve and a parameter
  (CurveLocation.js is not among the sources); the curve is absent when the constructor
  is given undefined.
\<close>

record curveLocation =
  cl_curve :: "curve option"
  cl_parameter :: number

text \<open>
  \<open>~~offset\<close>: the number is cut towards zero and wrapped to 32 bits with a sign; NaN
  and the infinities give zero.
\<close>

definition toInt32 :: "number \<Rightarrow> int" where
  "toInt32 a =
     (case a of
        Fin r \<Rightarrow>
          (let t = (if 0 \<le> r then \<lfloor>r\<rfloor> else \<lceil>r\<rceil>);
               m = t mod 4294967296
           in if 2147483648 \<le> m then m - 4294967296 else m)
      | _ \<Rightarrow> 0)"

text \<open>
  The loop of \<open>getLocationAt\<close>: the length so far grows by the length of each curve,
  and the first curve at which it is at least the offset gives the location, at the
  parameter that \<open>getParameter\<close> returns for the rest of the offset. The loop ends
  without a location when no curve is left. The length of a curve and \<open>getParameter\<close>
  (Curve.js) are the parameters \<open>len\<close> and \<open>par\<close>.
\<close>

fun scan ::
  "(curve \<Rightarrow> error + number) \<Rightarrow> (curve \<Rightarrow> number \<Rightarrow> number) \<Rightarrow> number \<Rightarrow>
   curve option list \<Rightarrow> number \<Rightarrow> error + curveLocation option" where
  "scan len par offset [] length0 = Inr None"
| "scan len par offset (None # curves) length0 = Inl TypeError"
| "scan len par offset (Some curve # curves) length0 =
     (case len curve of
        Inl e \<Rightarrow> Inl e
      | Inr l \<Rightarrow>
          (let start = length0;
               length1 = length0 + l
           in if length1 \<ge> offset then
                Inr (Some \<lparr>cl_curve = Some curve, cl_parameter = par curve (offset - start)\<rparr>)
              else scan len par offset curves length1))"

text \<open>
  \<open>getLocationAt(offset, isParameter)\<close>. With \<open>isParameter\<close> the offset is a curve
  index and a parameter. Otherwise the loop runs, and when it ends without a location
  the offset is compared with \<open>getLength()\<close>: the last curve at parameter 1 when the
  offset is at most the length, and null otherwise.
\<close>

definition getLocationAt ::
  "(curve \<Rightarrow> error + number) \<Rightarrow> (curve \<Rightarrow> number \<Rightarrow> number) \<Rightarrow> number \<Rightarrow> bool \<Rightarrow>
   path \<Rightarrow> error + (curveLocation option \<times> path)" where
  "getLocationAt len par offset isParameter p =
     (let (curves, p1) = getCurves p
      in if isParameter then
           (let index = toInt32 offset
            in Inr (Some \<lparr>cl_curve = (case nth_opt curves index of Some c \<Rightarrow> c | None \<Rightarrow> None),
                           cl_parameter = offset - Fin (real_of_int index)\<rparr>, p1))
         else
           (case scan len par offset curves (Fin 0) of
              Inl e \<Rightarrow> Inl e
            | Inr (Some loc) \<Rightarrow> Inr (Some loc, p1)
            | Inr None \<Rightarrow>
                (case getLength len p1 of
                   Inl e \<Rightarrow> Inl e
                 | Inr (whole, p2) \<Rightarrow>
                     if offset \<le> whole then
                       Inr (Some \<lparr>cl_curve =
                                    (case nth_opt curves (int (length curves) - 1) of
                                       Some c \<Rightarrow> c
                                     | None \<Rightarrow> None),
                                  cl_parameter = Fin 1\<rparr>, p2)
                     else Inr (None, p2))))"

section \<open>The location the specification asks for\<close>

text \<open>
  The cumulative length of the first \<open>k\<close> curves, added up from zero in their order.
  The location asked for: on the first curve whose cumulative length reaches the offset,
  at the parameter for the offset less the length before that curve; with no such curve,
  the last curve at parameter 1 when the offset does not exceed the total length, and
  nothing when it does.
\<close>

definition cum :: "(curve \<Rightarrow> number) \<Rightarrow> curve list \<Rightarrow> nat \<Rightarrow> number" where
  "cum clen ds k = foldl (+) (Fin 0) (map clen (take k ds))"

definition locate_spec ::
  "(curve \<Rightarrow> number) \<Rightarrow> (curve \<Rightarrow> number \<Rightarrow> number) \<Rightarrow> curve list \<Rightarrow> number \<Rightarrow> number \<Rightarrow>
   curveLocation option" where
  "locate_spec clen par ds whole offset =
     (case find (\<lambda>k. cum clen ds (Suc k) \<ge> offset) [0..<length ds] of
        Some k \<Rightarrow>
          Some \<lparr>cl_curve = Some (ds ! k), cl_parameter = par (ds ! k) (offset - cum clen ds k)\<rparr>
      | None \<Rightarrow>
          if offset \<le> whole then Some \<lparr>cl_curve = Some (last ds), cl_parameter = Fin 1\<rparr>
          else None)"

text \<open>
  The four curves of the square, a length for curves that takes zero as the estimate
  of a curve that is not straight, and a parameter function (the offset over 100).
\<close>

definition square_curves :: "curve list" where
  "square_curves =
     [Curve_create square_path (Some (vertex 0 0 0)) (Some (vertex 100 0 1)),
      Curve_create square_path (Some (vertex 100 0 1)) (Some (vertex 100 100 2)),
      Curve_create square_path (Some (vertex 100 100 2)) (Some (vertex 0 100 3)),
      Curve_create square_path (Some (vertex 0 100 3)) (Some (vertex 0 0 0))]"

definition flat_length :: "curve \<Rightarrow> error + number" where
  "flat_length = Curve_getLength (\<lambda>p1 c1 c2 p2. Fin 0)"

definition flat_parameter :: "curve \<Rightarrow> number \<Rightarrow> number" where
  "flat_parameter c d = d / Fin 100"

section \<open>Stroke bounds\<close>





















section \<open>Containment of rectangles\<close>











section \<open>Properties of reversal\<close>

lemma swapHandles_twice: "swapHandles (swapHandles s) = s"
  by (simp add: swapHandles_def)

text \<open>
  Claim C9. Calling \<open>reverse()\<close> twice gives back the path as it was: the order of
  the segments, both handles of every segment and the cached clockwise flag, and every
  other field of the path with them.
\<close>

theorem reverse_reverse: "reverse (reverse p) = p"
proof -
  have segs: "map swapHandles (rev (map swapHandles (rev (p_segments p)))) = p_segments p"
    by (simp add: rev_map swapHandles_twice comp_def)
  have cw: "(case (case p_clockwise p of None \<Rightarrow> None | Some c \<Rightarrow> Some (\<not> c)) of
              None \<Rightarrow> None | Some c \<Rightarrow> Some (\<not> c)) = p_clockwise p"
    by (cases "p_clockwise p") simp_all
  show ?thesis
    unfolding reverse_def by (simp add: segs cw)
qed

section \<open>Properties of the segment list\<close>

text \<open>
  Claim C1. The claim asks that every segment returned by \<open>removeSegments\<close> has no
  path and no index. The program does not do that: a path is made with the one segment
  (10, 20), and \<open>removeSegments(0, 1)\<close> empties it and returns that segment, which still
  refers to path 1 and still has index 0.
\<close>

theorem removeSegments_keeps_path_and_index:
  "case initialize 1 [corner (Point_new 10 20)] of
     Inl e \<Rightarrow> False
   | Inr (segs, p) \<Rightarrow>
       (case removeSegments (Some 0) (Some 1) p of
          Inl e \<Rightarrow> False
        | Inr (removed, p1) \<Rightarrow>
            p_segments p1 = [] \<and> map s_path removed = [Some 1] \<and>
            map s_index removed = [Some 0])"
  by (simp add: initialize_def add_def blank_def corner_def Segment_new_def
      removeSegments_def splice_def splice_start_def reindex.simps)

text \<open>
  The segments that stay in the list are kept in order by every operation called with an
  index inside the list: a new path made from segments, an append, an insertion at a
  position from zero to the length, and a removal from a position that is not negative
  all leave every contained segment with this path and its own position.
\<close>

lemma updateSelection_frame:
  "p_id (updateSelection s p) = p_id p \<and> p_segments (updateSelection s p) = p_segments p \<and>
   p_closed (updateSelection s p) = p_closed p \<and> p_curves (updateSelection s p) = p_curves p"
  by (simp add: updateSelection_def Let_def)

lemma add_scan_result:
  "add_scan idx segs p = (segs1, p1) \<Longrightarrow>
     length segs1 = length segs \<and> p_id p1 = p_id p \<and> p_segments p1 = p_segments p \<and>
     (\<forall>k<length segs. s_path (segs1 ! k) = Some (p_id p) \<and>
                        s_index (segs1 ! k) = Some (idx + int k))"
proof (induction segs arbitrary: idx p segs1 p1)
  case Nil
  then show ?case by simp
next
  case (Cons s segs)
  let ?seg = "(if s_path s \<noteq> None then Segment_copy s else s)\<lparr>s_path := Some (p_id p), s_index := Some idx\<rparr>"
  let ?p = "if s_selectionState ?seg \<noteq> 0 then updateSelection ?seg p else p"
  obtain rest p2 where rec: "add_scan (idx + 1) segs ?p = (rest, p2)"
    by (cases "add_scan (idx + 1) segs ?p")
  from Cons.prems have "(?seg # rest, p2) = (segs1, p1)"
    by (simp only: add_scan.simps Let_def rec prod.case)
  then have res: "segs1 = ?seg # rest" "p1 = p2"
    by simp_all
  have fr: "p_id ?p = p_id p" "p_segments ?p = p_segments p"
    by (simp_all add: updateSelection_frame)
  note ih = Cons.IH [OF rec]
  show ?case
  proof (intro conjI allI impI)
    show "length segs1 = length (s # segs)" using ih res by simp
    show "p_id p1 = p_id p" using ih res fr by simp
    show "p_segments p1 = p_segments p" using ih res fr by simp
  next
    fix k assume "k < length (s # segs)"
    then show "s_path (segs1 ! k) = Some (p_id p)" 
      using ih res fr by (cases k) auto
  next
    fix k assume "k < length (s # segs)"
    then show "s_index (segs1 ! k) = Some (idx + int k)"
      using ih res fr by (cases k) auto
  qed
qed

lemma reindex_result:
  "0 \<le> i \<Longrightarrow> l = int (length segs) \<Longrightarrow>
     \<exists>segs1. reindex i l segs = Inr segs1 \<and> length segs1 = length segs \<and>
       (\<forall>k<length segs.
          segs1 ! k = (if i \<le> int k then (segs ! k)\<lparr>s_index := Some (int k)\<rparr> else segs ! k))"
proof (induction i l segs rule: reindex.induct)
  case (1 i l segments)
  show ?case
  proof (cases "i < l")
    case False
    then have "reindex i l segments = Inr segments"
      by (subst reindex.simps) simp
    moreover have "\<not> i \<le> int k" if "k < length segments" for k
      using False that "1.prems"(2) by linarith
    ultimately show ?thesis
      by simp
  next
    case True
    then have range: "nat i < length segments"
      using "1.prems" by linarith
    then have nth: "nth_opt segments i = Some (segments ! nat i)"
      using "1.prems" by (simp add: nth_opt_def)
    let ?next = "segments[nat i := (segments ! nat i)\<lparr>s_index := Some i\<rparr>]"
    have "\<exists>segs1. reindex (i + 1) l ?next = Inr segs1 \<and> length segs1 = length ?next \<and>
       (\<forall>k<length ?next.
          segs1 ! k = (if i + 1 \<le> int k then (?next ! k)\<lparr>s_index := Some (int k)\<rparr> else ?next ! k))"
      using "1.IH" [OF True nth] "1.prems" by simp
    then obtain segs1 where s1: "reindex (i + 1) l ?next = Inr segs1"
      "length segs1 = length segments"
      "\<forall>k<length segments.
          segs1 ! k = (if i + 1 \<le> int k then (?next ! k)\<lparr>s_index := Some (int k)\<rparr> else ?next ! k)"
      by auto
    have run: "reindex i l segments = Inr segs1"
      using True nth s1(1) by (subst reindex.simps) simp
    have "segs1 ! k = (if i \<le> int k then (segments ! k)\<lparr>s_index := Some (int k)\<rparr> else segments ! k)"
      if "k < length segments" for k
    proof (cases "k = nat i")
      case True
      then show ?thesis
        using s1(3) that "1.prems"(1) by (simp add: nth_list_update)
    next
      case False
      then show ?thesis
        using s1(3) that "1.prems"(1) by (auto simp add: nth_list_update)
    qed
    then show ?thesis
      using run s1(2) by blast
  qed
qed

lemma changed_frame:
  "p_id (changed fl p) = p_id p \<and> p_segments (changed fl p) = p_segments p"
  by (cases fl) simp_all

lemma attachedI:
  assumes "\<And>k. k < length (p_segments p) \<Longrightarrow>
             s_path (p_segments p ! k) = Some (p_id p) \<and> s_index (p_segments p ! k) = Some (int k)"
  shows "attached p"
  using assms by (simp add: attached_def)

lemma attachedD:
  assumes "attached p" and "k < length (p_segments p)"
  shows "s_path (p_segments p ! k) = Some (p_id p)" and "s_index (p_segments p ! k) = Some (int k)"
  using assms by (simp_all add: attached_def)

lemma add_unfold:
  assumes "add segs idx p = Inr (r, p1)"
  obtains segs1 q segments where
    "add_scan (case idx of None \<Rightarrow> int (length (p_segments p)) | Some i \<Rightarrow> i) segs p = (segs1, q)"
    "(if idx = None then Inr (p_segments q @ segs1)
      else reindex ((case idx of None \<Rightarrow> int (length (p_segments p)) | Some i \<Rightarrow> i) + int (length segs))
             (int (length (snd (splice (case idx of None \<Rightarrow> int (length (p_segments p)) | Some i \<Rightarrow> i)
                                  0 segs1 (p_segments q)))))
             (snd (splice (case idx of None \<Rightarrow> int (length (p_segments p)) | Some i \<Rightarrow> i)
                     0 segs1 (p_segments q)))) = Inr segments"
    "p_segments p1 = segments" "p_id p1 = p_id q"
proof -
  let ?I = "case idx of None \<Rightarrow> int (length (p_segments p)) | Some i \<Rightarrow> i"
  obtain segs1 q where sc: "add_scan ?I segs p = (segs1, q)"
    by (cases "add_scan ?I segs p")
  let ?ins = "if idx = None then Inr (p_segments q @ segs1)
      else reindex (?I + int (length segs))
             (int (length (snd (splice ?I 0 segs1 (p_segments q)))))
             (snd (splice ?I 0 segs1 (p_segments q)))"
  from assms have "(case ?ins of Inl e \<Rightarrow> Inl e
      | Inr segments \<Rightarrow>
          (let p2 = q\<lparr>p_segments := segments\<rparr>;
               p3 = (case p_curves p of
                       None \<Rightarrow> p2
                     | Some cs \<Rightarrow>
                         (let index1 = ?I - 1
                          in if 0 \<le> index1 then
                               (let cs1 = snd (splice index1 0
                                      [Some (Curve_create p2 (nth_opt segments index1)
                                         (nth_opt segments (index1 + 1)))] cs);
                                    cs2 = set_segment1 (index1 + int (length segs))
                                            (nth_opt segments (index1 + int (length segs))) cs1
                                in p2\<lparr>p_curves := Some cs2\<rparr>)
                             else p2));
               segs2 = (if idx = None then segs1
                        else take (length segs1)
                               (drop (splice_start ?I (p_segments q)) segments))
           in Inr (segs2, changed GEOMETRY p3))) = Inr (r, p1)"
    unfolding add_def by (simp only: Let_def sc prod.case)
  then obtain segments where ins: "?ins = Inr segments"
    and p1: "p1 = changed GEOMETRY
        (case p_curves p of
           None \<Rightarrow> q\<lparr>p_segments := segments\<rparr>
         | Some cs \<Rightarrow>
             (if 0 \<le> ?I - 1 then
                (q\<lparr>p_segments := segments\<rparr>)\<lparr>p_curves := Some
                  (set_segment1 (?I - 1 + int (length segs))
                     (nth_opt segments (?I - 1 + int (length segs)))
                     (snd (splice (?I - 1) 0
                        [Some (Curve_create (q\<lparr>p_segments := segments\<rparr>)
                                 (nth_opt segments (?I - 1))
                                 (nth_opt segments (?I - 1 + 1)))] cs)))\<rparr>
              else q\<lparr>p_segments := segments\<rparr>))"
    by (cases ?ins) (simp_all only: sum.case Let_def sum.inject prod.inject, simp_all)
  have "p_segments p1 = segments" "p_id p1 = p_id q"
    unfolding p1 by (simp_all add: changed_frame split: option.splits)
  with sc ins show ?thesis
    by (rule that)
qed

lemma add_append_keeps_attached:
  assumes att: "attached p" and run: "add segs None p = Inr (r, p1)"
  shows "attached p1"
proof -
  from run obtain segs1 q segments where
    sc: "add_scan (int (length (p_segments p))) segs p = (segs1, q)"
    and ins: "Inr (p_segments q @ segs1) = (Inr segments :: error + segment list)"
    and out: "p_segments p1 = segments" "p_id p1 = p_id q"
    by (rule add_unfold) simp
  note res = add_scan_result [OF sc]
  have segs: "p_segments p1 = p_segments p @ segs1" and pid: "p_id p1 = p_id p"
    using ins out res by simp_all
  show ?thesis
  proof (rule attachedI)
    fix k assume k: "k < length (p_segments p1)"
    show "s_path (p_segments p1 ! k) = Some (p_id p1) \<and> s_index (p_segments p1 ! k) = Some (int k)"
    proof (cases "k < length (p_segments p)")
      case True
      then show ?thesis
        using attachedD [OF att True] by (simp add: segs pid nth_append)
    next
      case False
      then have "k - length (p_segments p) < length segs"
        using k res by (simp add: segs)
      then show ?thesis
        using res False by (simp add: segs pid nth_append)
    qed
  qed
qed

lemma add_insert_keeps_attached:
  assumes att: "attached p" and range: "0 \<le> i" "i \<le> int (length (p_segments p))"
    and run: "add segs (Some i) p = Inr (r, p1)"
  shows "attached p1"
proof -
  from run obtain segs1 q segments where
    sc: "add_scan i segs p = (segs1, q)"
    and ins: "reindex (i + int (length segs))
                (int (length (snd (splice i 0 segs1 (p_segments q)))))
                (snd (splice i 0 segs1 (p_segments q))) = Inr segments"
    and out: "p_segments p1 = segments" "p_id p1 = p_id q"
    by (rule add_unfold) simp
  note res = add_scan_result [OF sc]
  let ?old = "p_segments p"
  let ?mid = "take (nat i) ?old @ segs1 @ drop (nat i) ?old"
  have sp: "snd (splice i 0 segs1 (p_segments q)) = ?mid"
    using range res by (simp add: splice_def splice_start_def Let_def min_def)
  obtain fin where fin: "reindex (i + int (length segs)) (int (length ?mid)) ?mid = Inr fin"
    "length fin = length ?mid"
    "\<forall>k<length ?mid. fin ! k =
       (if i + int (length segs) \<le> int k then (?mid ! k)\<lparr>s_index := Some (int k)\<rparr> else ?mid ! k)"
    using reindex_result [of "i + int (length segs)" "int (length ?mid)" ?mid] range by auto
  have "reindex (i + int (length segs)) (int (length ?mid)) ?mid = Inr segments"
    using ins unfolding sp .
  then have "segments = fin"
    using fin(1) by simp
  then have segs: "p_segments p1 = fin" and pid: "p_id p1 = p_id p"
    using out res by simp_all
  have ni: "nat i \<le> length ?old"
    using range by linarith
  show ?thesis
  proof (rule attachedI)
    fix k assume "k < length (p_segments p1)"
    then have k: "k < length ?mid"
      by (simp add: segs fin(2))
    consider (before) "k < nat i" | (new) "nat i \<le> k" "k < nat i + length segs"
      | (after) "nat i + length segs \<le> k"
      by linarith
    then show "s_path (p_segments p1 ! k) = Some (p_id p1) \<and> s_index (p_segments p1 ! k) = Some (int k)"
    proof cases
      case before
      have lt: "k < length (take (nat i) ?old)"
        using before ni by simp
      have notc: "\<not> i + int (length segs) \<le> int k"
        using before range by linarith
      have "fin ! k = ?mid ! k"
        using fin(3) k notc by simp
      also have "\<dots> = ?old ! k"
        using lt before by (simp add: nth_append)
      finally have "fin ! k = ?old ! k" .
      moreover have "k < length ?old"
        using before ni by linarith
      ultimately show ?thesis
        using attachedD [OF att, of k] by (simp add: segs pid)
    next
      case new
      have len: "length (take (nat i) ?old) = nat i"
        using ni by simp
      have notc: "\<not> i + int (length segs) \<le> int k"
        using new range by linarith
      have in1: "k - nat i < length segs1"
        using new res by simp
      have "fin ! k = ?mid ! k"
        using fin(3) k notc by simp
      also have "\<dots> = segs1 ! (k - nat i)"
        using new in1 len by (simp add: nth_append)
      finally have "fin ! k = segs1 ! (k - nat i)" .
      moreover have "s_path (segs1 ! (k - nat i)) = Some (p_id p)"
        and "s_index (segs1 ! (k - nat i)) = Some (i + int (k - nat i))"
        using res in1 by simp_all
      moreover have "i + int (k - nat i) = int k"
        using new range by linarith
      ultimately show ?thesis
        by (simp add: segs pid)
    next
      case after
      have len: "length (take (nat i) ?old) = nat i"
        using ni by simp
      have c: "i + int (length segs) \<le> int k"
        using after range by linarith
      have old: "k - length segs < length ?old"
        using k after res ni by simp
      have "?mid ! k = (segs1 @ drop (nat i) ?old) ! (k - nat i)"
        using after len by (simp add: nth_append)
      also have "\<dots> = drop (nat i) ?old ! (k - nat i - length segs1)"
        using after res by (simp add: nth_append)
      also have "\<dots> = ?old ! (k - length segs)"
        using after res ni old by simp
      finally have m: "?mid ! k = ?old ! (k - length segs)" .
      have "fin ! k = (?mid ! k)\<lparr>s_index := Some (int k)\<rparr>"
        using fin(3) k c by simp
      then show ?thesis
        using attachedD(1) [OF att old] by (simp add: segs pid m)
    qed
  qed
qed

lemma remove_scan_result:
  "remove_scan rs p = (removed, q) \<Longrightarrow>
     p_id q = p_id p \<and> p_segments q = p_segments p \<and>
     map s_path removed = map s_path rs \<and> map s_index removed = map s_index rs"
proof (induction rs arbitrary: p removed q)
  case Nil
  then show ?case by simp
next
  case (Cons s rs)
  show ?case
  proof (cases "s_selectionState s = 0")
    case True
    obtain rest q1 where rec: "remove_scan rs p = (rest, q1)"
      by (cases "remove_scan rs p")
    have "remove_scan (s # rs) p = (s # rest, q1)"
      using rec True by simp
    with Cons.prems have "removed = s # rest" "q = q1"
      by simp_all
    then show ?thesis
      using Cons.IH [OF rec] by simp
  next
    case False
    let ?seg = "s\<lparr>s_selectionState := 0\<rparr>"
    obtain rest q1 where rec: "remove_scan rs (updateSelection ?seg p) = (rest, q1)"
      by (cases "remove_scan rs (updateSelection ?seg p)")
    have "remove_scan (s # rs) p = (?seg # rest, q1)"
      using rec False by (simp add: Let_def)
    with Cons.prems have "removed = ?seg # rest" "q = q1"
      by simp_all
    then show ?thesis
      using Cons.IH [OF rec] by (simp add: updateSelection_frame)
  qed
qed

lemma removeSegments_unfold:
  assumes "removeSegments from0 to0 p = Inr (removed, p1)"
    and "from = (case from0 of None \<Rightarrow> 0 | Some f \<Rightarrow> f)"
    and "to = (case to0 of None \<Rightarrow> int (length (p_segments p)) - 1 | Some t \<Rightarrow> t)"
    and "splice from (to - from) [] (p_segments p) = (removed0, segments0)"
  shows "(removed0 = [] \<and> removed = [] \<and> p1 = p) \<or>
         (removed0 \<noteq> [] \<and> reindex from (int (length segments0)) segments0 = Inr (p_segments p1) \<and>
          p_id p1 = p_id p \<and>
          map s_path removed = map s_path removed0 \<and>
          map s_index removed = map s_index removed0)"
proof (cases "removed0 = []")
  case True
  have "Inr (removed0, p) = Inr (removed, p1)"
    using assms(1) True unfolding removeSegments_def assms(2) [symmetric] assms(3) [symmetric]
    by (simp only: Let_def assms(4) prod.case) simp
  then show ?thesis
    using True by simp
next
  case False
  obtain rem q where rs: "remove_scan removed0 p = (rem, q)"
    by (cases "remove_scan removed0 p")
  from assms(1) False have run:
    "(case reindex from (int (length segments0)) segments0 of
        Inl e \<Rightarrow> Inl e
      | Inr segments \<Rightarrow>
          (let p2 = q\<lparr>p_segments := segments\<rparr>;
               p3 = (case p_curves p of
                       None \<Rightarrow> p2
                     | Some cs \<Rightarrow>
                         (let cs1 = snd (splice from (int (length removed0)) [] cs);
                              cs2 = set_segment2 (from - 1) (nth_opt segments from) cs1;
                              cs3 = set_segment1 from (nth_opt segments from) cs2;
                              cs4 = (if to \<ge> int (length (p_segments p)) \<and> p_closed p2 then
                                       set_segment2 (int (length cs3) - 1)
                                         (nth_opt segments 0) cs3
                                     else cs3)
                          in p2\<lparr>p_curves := Some cs4\<rparr>))
           in Inr (rem, changed GEOMETRY p3))) = Inr (removed, p1)"
    unfolding removeSegments_def assms(2) [symmetric] assms(3) [symmetric]
    by (simp only: Let_def assms(4) rs prod.case) simp
  then obtain segments where ri: "reindex from (int (length segments0)) segments0 = Inr segments"
    by (cases "reindex from (int (length segments0)) segments0") simp_all
  from run have rem: "removed = rem" and seg: "p_segments p1 = segments" and id: "p_id p1 = p_id q"
    unfolding ri by (auto simp add: Let_def changed_frame split: option.splits)
  show ?thesis
    using False ri rem seg id remove_scan_result [OF rs] by simp
qed

lemma removeSegments_keeps_attached:
  assumes att: "attached p"
    and nonneg: "0 \<le> from"
    and run: "removeSegments (Some from) to0 p = Inr (removed, p1)"
  shows "attached p1"
proof -
  define to where "to = (case to0 of None \<Rightarrow> int (length (p_segments p)) - 1 | Some t \<Rightarrow> t)"
  define old where "old = p_segments p"
  define st where "st = splice_start from old"
  define cnt where "cnt = nat (min (max (to - from) 0) (int (length old) - int st))"
  define removed0 where "removed0 = take cnt (drop st old)"
  define segments0 where "segments0 = take st old @ drop (st + cnt) old"
  have sp: "splice from (to - from) [] (p_segments p) = (removed0, segments0)"
    unfolding splice_def Let_def removed0_def segments0_def cnt_def st_def old_def by simp
  have st: "st = nat (min from (int (length old)))"
    using nonneg unfolding st_def splice_start_def Let_def by simp
  have "from = (case Some from of None \<Rightarrow> 0 | Some f \<Rightarrow> f)"
    by simp
  from removeSegments_unfold [OF run this to_def sp]
  consider "p1 = p"
    | "removed0 \<noteq> []" "reindex from (int (length segments0)) segments0 = Inr (p_segments p1)"
      "p_id p1 = p_id p"
    by blast
  then show ?thesis
  proof cases
    case 1
    then show ?thesis using att by simp
  next
    case 2
    from 2(1) have cnt0: "0 < cnt" and stlt: "st < length old"
      unfolding removed0_def by auto
    then have stfrom: "int st = from"
      using st nonneg by linarith
    from reindex_result [OF nonneg refl, of segments0] 2(2)
    have len: "length (p_segments p1) = length segments0"
      and each: "\<And>k. k < length segments0 \<Longrightarrow>
          p_segments p1 ! k =
            (if from \<le> int k then (segments0 ! k)\<lparr>s_index := Some (int k)\<rparr> else segments0 ! k)"
      by auto
    have cntle: "st + cnt \<le> length old"
      unfolding cnt_def using stlt by linarith
    have len0: "length segments0 = length old - cnt"
      unfolding segments0_def using cntle stlt by simp
    show ?thesis
    proof (rule attachedI)
      fix k
      assume "k < length (p_segments p1)"
      then have k: "k < length segments0"
        using len by simp
      show "s_path (p_segments p1 ! k) = Some (p_id p1) \<and>
            s_index (p_segments p1 ! k) = Some (int k)"
      proof (cases "k < st")
        case True
        then have "segments0 ! k = old ! k"
          unfolding segments0_def using stlt by (simp add: nth_append)
        moreover have "k < length (p_segments p)"
          using True stlt unfolding old_def by simp
        moreover have "\<not> from \<le> int k"
          using True stfrom by linarith
        ultimately show ?thesis
          using each [OF k] attachedD [OF att, of k] 2(3) unfolding old_def by simp
      next
        case False
        then have "segments0 ! k = old ! (k + cnt)"
          unfolding segments0_def using stlt cntle by (simp add: nth_append ac_simps)
        moreover have "k + cnt < length (p_segments p)"
          using k len0 cntle unfolding old_def by linarith
        moreover have "from \<le> int k"
          using False stfrom by linarith
        ultimately show ?thesis
          using each [OF k] attachedD [OF att, of "k + cnt"] 2(3) unfolding old_def by simp
      qed
    qed
  qed
qed

lemma attached_blank: "attached (blank pid)"
  by (simp add: attached_def blank_def)

lemma initialize_attached: "initialize pid segs = Inr (r, p) \<Longrightarrow> attached p"
  unfolding initialize_def by (rule add_append_keeps_attached [OF attached_blank])

section \<open>Properties of the curve list\<close>

lemma length_buildCurves: "length (buildCurves p) = curveCount p"
  by (auto simp add: buildCurves_def curveCount_def Let_def)

lemma getCurves_length: "curves_in_sync p \<Longrightarrow> length (fst (getCurves p)) = curveCount p"
  by (auto simp add: getCurves_def curves_in_sync_def length_buildCurves Let_def
      split: option.splits)

lemma getCurves_sync: "curves_in_sync p \<Longrightarrow> curves_in_sync (snd (getCurves p))"
  by (auto simp add: getCurves_def curves_in_sync_def length_buildCurves curveCount_def
      Let_def split: option.splits)

lemma setClosed_sync: "curves_in_sync p \<Longrightarrow> curves_in_sync (setClosed c p)"
  by (cases c; cases "p_curves p")
     (auto simp add: setClosed_def curves_in_sync_def curveCount_def set_length_def Let_def)

text \<open>
  Claim C2, as stated, fails: the closed path with one segment has one curve (from the
  segment to itself), where the claim wants the curve list of a closed path with at most
  one segment to be empty.
\<close>

theorem single_closed_has_curve:
  "p_closed single_closed \<and> length (p_segments single_closed) = 1 \<and>
   length (fst (getCurves single_closed)) = 1"
  by (simp add: single_closed_def initialize_def add_def blank_def corner_def
      Segment_new_def setClosed_def getCurves_def buildCurves_def Let_def)

text \<open>
  Claim C2, amended. For a path with no curve list, or with one of the right length,
  \<open>getCurves\<close> returns a list with as many curves as the path has segments when it is
  closed and one fewer when it is open, never below zero, and leaves the path in sync;
  \<open>setClosed\<close> keeps the path in sync, so the same holds after it. The list is
  therefore empty exactly for a path with no segment and for an open path with one.
\<close>

theorem curve_count:
  "curves_in_sync p \<Longrightarrow>
     length (fst (getCurves p)) = curveCount p \<and>
     curves_in_sync (snd (getCurves p)) \<and>
     curves_in_sync (setClosed c p) \<and>
     length (fst (getCurves (setClosed c p))) = curveCount (setClosed c p)"
  using getCurves_length getCurves_sync setClosed_sync by blast

theorem curve_count_witness:
  "curves_in_sync two_open \<and> length (fst (getCurves two_open)) = 1 \<and>
   length (fst (getCurves (setClosed True two_open))) = 2"
proof -
  have segs: "length (p_segments two_open) = 2" and op: "\<not> p_closed two_open"
    by (simp_all add: two_open_def initialize_def add_def blank_def corner_def
        Segment_new_def getCurves_def Let_def)
  have h: "curves_in_sync two_open"
    by (simp add: two_open_def initialize_def add_def blank_def corner_def Segment_new_def
        getCurves_def buildCurves_def curves_in_sync_def curveCount_def Let_def)
  have c1: "curveCount two_open = 1"
    using segs op by (simp add: curveCount_def)
  have c2: "curveCount (setClosed True two_open) = 2"
    using segs op
    by (cases "p_curves two_open") (simp_all add: curveCount_def setClosed_def Let_def)
  show ?thesis
    using h curve_count [OF h, of True] c1 c2 by simp
qed

text \<open>
  What \<open>_add\<close> and \<open>removeSegments\<close> do to an existing curve list is another matter.
  Adding two segments to the open path with two segments and one curve splices in one
  curve, so four segments have two curves; removing its last segment removes no curve
  (the splice starts past the end of the curve list), so one segment has one curve.
\<close>

lemma two_open_eq:
  "two_open =
     (blank 1)\<lparr>p_segments := [vertex 10 20 0, vertex 30 40 1],
       p_curves := Some [Some (Curve_create (blank 1) (Some (vertex 10 20 0)) (Some (vertex 30 40 1)))]\<rparr>"
  by (simp add: two_open_def initialize_def add_def blank_def corner_def Segment_new_def
      getCurves_def buildCurves_def nth_opt_def Curve_create_def vertex_def Let_def)

lemma add_two_leaves_curves_short:
  "case add [corner (Point_new 50 60), corner (Point_new 70 80)] None two_open of
     Inl e \<Rightarrow> False
   | Inr (segs, p) \<Rightarrow>
       length (p_segments p) = 4 \<and> \<not> p_closed p \<and> map_option length (p_curves p) = Some 2"
  by (simp add: two_open_eq add_def blank_def corner_def Segment_new_def splice_def
      splice_start_def set_segment1_def nth_opt_def Curve_create_def vertex_def Let_def)

lemma remove_last_leaves_curves_long:
  "case removeSegments (Some 1) (Some 2) two_open of
     Inl e \<Rightarrow> False
   | Inr (removed, p) \<Rightarrow>
       length (p_segments p) = 1 \<and> \<not> p_closed p \<and> map_option length (p_curves p) = Some 1"
  by (simp add: two_open_eq removeSegments_def blank_def corner_def Segment_new_def splice_def
      splice_start_def set_segment1_def set_segment2_def nth_opt_def Curve_create_def
      vertex_def reindex.simps Let_def)

section \<open>Properties of the drawing commands\<close>

lemma at_origin_eq:
  "at_origin =
     (blank 1)\<lparr>p_segments := [(corner (Point_new 0 0))\<lparr>s_path := Some 1, s_index := Some 0\<rparr>]\<rparr>"
  by (simp add: at_origin_def moveTo_def blank_def add_def and_then_def corner_def
      Segment_new_def)

text \<open>
  Claim C6. The claim asks that \<open>curveTo\<close> with parameter 0 or 1 throws and adds no
  segment with a coordinate that is not finite. The program does not do that when the
  numerator of the handle is not zero: on the path at (0, 0), \<open>curveTo\<close> through (1, 1)
  to (2, 0) with parameter 0 divides (1, 1) by zero, the handle is (Infinity, Infinity),
  \<open>isNaN\<close> is false of it, nothing is thrown, and the segment added at (2, 0) has the
  incoming handle (NaN, NaN).
\<close>

theorem curveTo_parameter_zero_adds_NaN:
  "case curveTo (Point_new 1 1) (Point_new 2 0) (Some (Fin 0)) at_origin of
     Inl e \<Rightarrow> False
   | Inr p \<Rightarrow> map s_point (p_segments p) = [Point_new 0 0, Point_new 2 0] \<and>
       map s_handleIn (p_segments p) = [Point_new 0 0, \<lparr>pt_x = NaN, pt_y = NaN\<rparr>]"
  by (simp add: curveTo_def at_origin_eq blank_def getCurrentSegment_def and_then_def Let_def
      corner_def Segment_new_def Point_new_def Point_divide_def Point_subtract_def
      Point_multiply_def Point_isNaN_def isNaN_def minus_number_def quadraticCurveTo_def
      cubicCurveTo_def current_setHandleOut_def Point_add_def add_def)

lemma arcBy_step:
  assumes IH: "\<And>a b q y. f a b q = Some y \<Longrightarrow> p_segments q = []"
    and step: "(case getCurrentSegment q of
                  Inl e \<Rightarrow> Some (Inl e)
                | Inr segment \<Rightarrow>
                    (let current = s_point segment
                     in f (Point_add current a) (Point_add current b) q)) = Some y"
  shows "p_segments q = []"
proof (cases "getCurrentSegment q")
  case (Inl e)
  then show ?thesis
    by (simp add: getCurrentSegment_def Let_def split: if_splits)
next
  case (Inr segment)
  with step have "f (Point_add (s_point segment) a) (Point_add (s_point segment) b) q = Some y"
    by (simp add: Let_def)
  then show ?thesis by (rule IH)
qed

lemma arcBy_returns_only_error:
  assumes "arcBy throughVector toVector p = Some r"
  shows "p_segments p = []"
  using arcBy_step assms by (rule arcBy.raw_induct)

lemma arcBy_never_returns:
  "p_segments p \<noteq> [] \<Longrightarrow> arcBy throughVector toVector p = None"
  using arcBy_returns_only_error by (cases "arcBy throughVector toVector p") auto

text \<open>
  Claim C10. The claim asks that \<open>arcBy\<close> on a path with a segment reaches a base
  case. The program does not: \<open>arcBy\<close> calls itself, and a call returns only when the
  path has no segment (the throw of \<open>getCurrentSegment\<close>). On the path at (0, 0) the
  call with the vectors (10, 0) and (20, 0) does not return.
\<close>

theorem arcBy_does_not_return:
  "p_segments at_origin \<noteq> [] \<and>
   arcBy (Point_new 10 0) (Point_new 20 0) at_origin = None"
proof -
  have "p_segments at_origin \<noteq> []"
    by (simp add: at_origin_eq)
  then show ?thesis
    by (simp add: arcBy_never_returns)
qed

section \<open>Properties of smoothing\<close>

lemma update_same_image:
  assumes "f y = f (xs ! i)"
  shows "map f (xs[i := y]) = map f xs"
proof (cases "i < length xs")
  case True
  have "map f (xs[i := y]) = (map f xs)[i := f y]"
    by (simp add: map_update)
  also have "\<dots> = (map f xs)[i := (map f xs) ! i]"
    using True assms by simp
  also have "\<dots> = map f xs"
    by simp
  finally show ?thesis .
next
  case False
  then show ?thesis by (simp add: list_update_beyond not_less)
qed

lemma skeleton_changed: "skeleton (changed fl p) = skeleton p"
  by (cases fl) (simp_all add: skeleton_def)

lemma skeleton_setHandleIn_at: "skeleton (setHandleIn_at i h p) = skeleton p"
  by (simp add: setHandleIn_at_def Let_def skeleton_changed)
     (simp add: skeleton_def update_same_image without_handles_def)

lemma skeleton_setHandleOut_at: "skeleton (setHandleOut_at i h p) = skeleton p"
  by (simp add: setHandleOut_at_def Let_def skeleton_changed)
     (simp add: skeleton_def update_same_image without_handles_def)

lemma skeleton_handle_step:
  "skeleton (fst (handle_step overlap n knots x y i (p, h))) = skeleton p"
  by (cases h)
     (simp_all add: handle_step_def Let_def skeleton_setHandleIn_at skeleton_setHandleOut_at)

lemma skeleton_handle_loop:
  "skeleton (fst (fold (handle_step overlap n knots x y) is (p, h))) = skeleton p"
proof (induction "is" arbitrary: p h)
  case Nil
  show ?case by simp
next
  case (Cons i "is")
  obtain p1 h1 where st: "handle_step overlap n knots x y i (p, h) = (p1, h1)"
    by (cases "handle_step overlap n knots x y i (p, h)")
  have "skeleton p1 = skeleton p"
    using skeleton_handle_step [of overlap n knots x y i p h] st by simp
  with Cons.IH [of p1 h1] st show ?case by simp
qed

lemma skeleton_set_handles: "skeleton (set_handles overlap n knots x y p) = skeleton p"
proof -
  obtain p1 hIn where
    st: "fold (handle_step overlap n knots x y) [overlap..<n - overlap + 1] (p, None) = (p1, hIn)"
    by (cases "fold (handle_step overlap n knots x y) [overlap..<n - overlap + 1] (p, None)")
  have "skeleton p1 = skeleton p"
    using skeleton_handle_loop [of overlap n knots x y "[overlap..<n - overlap + 1]" p None] st
    by simp
  then show ?thesis
    unfolding set_handles_def Let_def st
    by (cases hIn) (simp_all add: skeleton_setHandleIn_at)
qed

lemma skeleton_smooth: "skeleton (smooth p) = skeleton p"
  unfolding smooth_def Let_def
  by (simp add: skeleton_set_handles split: prod.splits)

lemma without_handles_point: "s_point (without_handles s) = s_point s"
  by (simp add: without_handles_def)

text \<open>
  Claim C7. After \<open>smooth()\<close> the path has the same number of segments, every segment
  has the anchor it had, and the segments differ from the ones before in their two
  handles at most (they agree once the handles are taken away); the closed flag is
  unchanged. A path with two segments or fewer is not changed at all.
\<close>

theorem smooth_keeps_anchors:
  "length (p_segments (smooth p)) = length (p_segments p) \<and>
   map s_point (p_segments (smooth p)) = map s_point (p_segments p) \<and>
   map without_handles (p_segments (smooth p)) = map without_handles (p_segments p) \<and>
   p_closed (smooth p) = p_closed p \<and>
   (length (p_segments p) \<le> 2 \<longrightarrow> smooth p = p)"
proof -
  have sk: "map without_handles (p_segments (smooth p)) = map without_handles (p_segments p)"
    and cl: "p_closed (smooth p) = p_closed p"
    using skeleton_smooth [of p] by (simp_all add: skeleton_def)
  have len: "length (p_segments (smooth p)) = length (p_segments p)"
    using arg_cong [OF sk, of length] by simp
  have "map s_point (map without_handles (p_segments (smooth p))) =
        map s_point (map without_handles (p_segments p))"
    by (simp only: sk)
  then have pts: "map s_point (p_segments (smooth p)) = map s_point (p_segments p)"
    by (simp add: without_handles_point comp_def)
  have small: "length (p_segments p) \<le> 2 \<longrightarrow> smooth p = p"
    by (simp add: smooth_def Let_def)
  show ?thesis
    using sk cl len pts small by blast
qed

theorem smooth_keeps_anchors_witness:
  "length (p_segments two_open) \<le> 2 \<and> smooth two_open = two_open \<and>
   map s_point (p_segments (smooth three_open)) = map s_point (p_segments three_open)"
proof -
  have h: "length (p_segments two_open) \<le> 2"
    by (simp add: two_open_def initialize_def add_def blank_def corner_def
        Segment_new_def getCurves_def Let_def)
  show ?thesis
    using h smooth_keeps_anchors [of two_open] smooth_keeps_anchors [of three_open] by simp
qed

text \<open>
  The handles do change: the open path through (0, 0), (100, 0) and (100, 100) has no
  handles before, and these after.
\<close>

lemma three_open_eq:
  "three_open = (blank 1)\<lparr>p_segments := [vertex 0 0 0, vertex 100 0 1, vertex 100 100 2]\<rparr>"
  by (simp add: three_open_def initialize_def add_def blank_def corner_def Segment_new_def
      vertex_def Let_def)

lemma smooth_three_open:
  "map s_handleOut (p_segments (smooth three_open)) =
     [Point_new (100 / 3) 0, Point_new (100 / 3) 0, Point_new 0 0] \<and>
   map s_handleIn (p_segments (smooth three_open)) =
     [Point_new 0 0, Point_new (- (100 / 3)) 0, Point_new (50 / 3) (- 50)]"
  by (simp add: three_open_eq smooth_def set_handles_def handle_step_def smooth_rhs_def
      getFirstControlPoints_def forward_step_def back_step_def num_at_def
      setHandleIn_at_def setHandleOut_at_def Point_subtract_def
      blank_def vertex_def corner_def Segment_new_def Point_new_def minus_number_def Let_def
      upt_rec [of 0] upt_rec [of 1] upt_rec [of 2])

section \<open>The square\<close>

lemma square_eq: "square = Inr square_path"
  by (simp add: square_def moveTo_def lineTo_def closePath_def and_then_def add_def blank_def
      corner_def Segment_new_def setClosed_def vertex_def square_path_def)

lemma sqrt_10000: "sqrt 10000 = (100::real)"
  by (rule real_sqrt_unique) simp_all

lemma square_length:
  "\<exists>p1. getLength (Curve_getLength estimate) square_path = Inr (Fin 400, p1)"
  by (simp add: square_path_def getLength_def getCurves_def buildCurves_def blank_def
      Curve_create_def nth_opt_def Curve_getLength_def vertex_def corner_def Segment_new_def
      Point_new_def isZero_def num_eq_def minus_number_def sqrt_10000 Let_def
      upt_rec [of 0] upt_rec [of 1] upt_rec [of 2] upt_rec [of 3])

lemma square_clockwise: "isClockwise square_path"
  by (simp add: square_path_def isClockwise_def blank_def clockwise_step_def edge_def
      vertex_def corner_def Segment_new_def Point_new_def minus_number_def Let_def
      upt_rec [of 0] upt_rec [of 1] upt_rec [of 2] upt_rec [of 3])

lemma square_bounds:
  "Path_getBounds tMin None square_path =
     Some \<lparr>r_x = Fin 0, r_y = Fin 0, r_width = Fin 100, r_height = Fin 100\<rparr>"
  by (simp add: square_path_def Path_getBounds_def processSegment_def process_axis_def
      bounds_add_def add_root_def bezier_def transformCoordinates_def blank_def num_eq_def
      vertex_def corner_def Segment_new_def Point_new_def minus_number_def Let_def)

text \<open>
  Claim C4. The path built by \<open>moveTo(0, 0); lineTo(100, 0); lineTo(100, 100);
  lineTo(0, 100); closePath()\<close> has length 400, is clockwise, and has the bounds with
  origin (0, 0), width 100 and height 100, whatever the estimate used for curves that are
  not straight and whatever the tolerance of the root test.
\<close>

theorem square_scenario:
  "case square of
     Inl e \<Rightarrow> False
   | Inr p \<Rightarrow>
       (case getLength (Curve_getLength estimate) p of
          Inl e \<Rightarrow> False
        | Inr (l, p1) \<Rightarrow> l = Fin 400) \<and>
       isClockwise p \<and>
       (case getBounds tMin p of
          Inl e \<Rightarrow> False
        | Inr (r, p1) \<Rightarrow>
            r = \<lparr>r_x = Fin 0, r_y = Fin 0, r_width = Fin 100, r_height = Fin 100\<rparr>)"
proof -
  obtain p1 where len: "getLength (Curve_getLength estimate) square_path = Inr (Fin 400, p1)"
    using square_length by blast
  have pb: "p_bounds square_path = None"
    by (simp add: square_path_def blank_def)
  have bnd: "getBounds tMin square_path =
      Inr (\<lparr>r_x = Fin 0, r_y = Fin 0, r_width = Fin 100, r_height = Fin 100\<rparr>,
           square_path\<lparr>p_bounds :=
             Some \<lparr>r_x = Fin 0, r_y = Fin 0, r_width = Fin 100, r_height = Fin 100\<rparr>\<rparr>)"
    by (simp add: getBounds_def pb square_bounds)
  show ?thesis
    by (simp add: square_eq len square_clockwise bnd)
qed

section \<open>Properties of locations\<close>

lemma add_lengths_foldl:
  "\<forall>d\<in>set ds. len d = Inr (clen d) \<Longrightarrow>
     add_lengths len (map Some ds) acc = Inr (foldl (+) acc (map clen ds))"
  by (induction ds arbitrary: acc) simp_all

lemma find_map_comp: "find P (map f xs) = map_option f (find (P \<circ> f) xs)"
  by (induction xs) simp_all

lemma find_upt_Suc:
  "find P [0..<Suc n] = (if P 0 then Some 0 else map_option Suc (find (P \<circ> Suc) [0..<n]))"
proof -
  have "[0..<Suc n] = 0 # map Suc [0..<n]"
    by (simp add: upt_conv_Cons map_Suc_upt del: upt_Suc)
  then show ?thesis
    by (simp add: find_map_comp del: upt_Suc)
qed

lemma scan_find:
  "\<forall>d\<in>set ds. len d = Inr (clen d) \<Longrightarrow>
     scan len par offset (map Some ds) acc =
       Inr (case find (\<lambda>k. foldl (+) acc (map clen (take (Suc k) ds)) \<ge> offset) [0..<length ds] of
              Some k \<Rightarrow>
                Some \<lparr>cl_curve = Some (ds ! k),
                      cl_parameter = par (ds ! k) (offset - foldl (+) acc (map clen (take k ds)))\<rparr>
            | None \<Rightarrow> None)"
proof (induction ds arbitrary: acc)
  case Nil
  show ?case by simp
next
  case (Cons d ds)
  have len: "len d = Inr (clen d)" and rest: "\<forall>d\<in>set ds. len d = Inr (clen d)"
    using Cons.prems by simp_all
  show ?case
  proof (cases "acc + clen d \<ge> offset")
    case True
    then show ?thesis
      by (simp add: len find_upt_Suc del: upt_Suc)
  next
    case False
    then show ?thesis
      using Cons.IH [OF rest, of "acc + clen d"]
      by (simp add: len find_upt_Suc comp_def del: upt_Suc split: option.splits)
  qed
qed


lemma getCurves_again:
  "getCurves p = (cs, p1) \<Longrightarrow> getCurves p1 = (cs, p1) \<and> p_length p1 = p_length p"
  by (auto simp add: getCurves_def Let_def split: option.splits)

lemma getLength_fresh:
  assumes "getCurves p = (map Some ds, p1)" and "p_length p = None"
    and "\<forall>d\<in>set ds. len d = Inr (clen d)"
    and "getLength len p1 = Inr (whole, p2)"
  shows "whole = cum clen ds (length ds)"
proof -
  have again: "getCurves p1 = (map Some ds, p1)" and none: "p_length p1 = None"
    using getCurves_again [OF assms(1)] assms(2) by simp_all
  show ?thesis
    using assms(4)
    by (simp add: getLength_def none again add_lengths_foldl [OF assms(3)] cum_def)
qed

lemma foldl_fin:
  "\<forall>d\<in>set ds. \<exists>r. clen d = Fin r \<and> 0 \<le> r \<Longrightarrow>
     \<exists>c. foldl (+) (Fin a) (map clen ds) = Fin c \<and> a \<le> c"
proof (induction ds arbitrary: a)
  case Nil
  show ?case by simp
next
  case (Cons d ds)
  from Cons.prems obtain r where r: "clen d = Fin r" "0 \<le> r" by auto
  from Cons.prems have "\<forall>d\<in>set ds. \<exists>r. clen d = Fin r \<and> 0 \<le> r" by simp
  from Cons.IH [OF this, of "a + r"] obtain c where
    "foldl (+) (Fin (a + r)) (map clen ds) = Fin c" "a + r \<le> c" by blast
  with r show ?case by auto
qed

lemma cum_below_whole:
  assumes "\<forall>d\<in>set ds. \<exists>r. clen d = Fin r \<and> 0 \<le> r"
  shows "\<exists>c w. cum clen ds k = Fin c \<and> cum clen ds (length ds) = Fin w \<and> c \<le> w"
proof -
  have tk: "\<forall>d\<in>set (take k ds). \<exists>r. clen d = Fin r \<and> 0 \<le> r"
    and dk: "\<forall>d\<in>set (drop k ds). \<exists>r. clen d = Fin r \<and> 0 \<le> r"
    using assms by (auto dest: in_set_takeD in_set_dropD)
  obtain c where c: "foldl (+) (Fin 0) (map clen (take k ds)) = Fin c"
    using foldl_fin [OF tk, of 0] by blast
  obtain w where w: "foldl (+) (Fin c) (map clen (drop k ds)) = Fin w" "c \<le> w"
    using foldl_fin [OF dk, of c] by blast
  have "foldl (+) (Fin 0) (map clen ds) =
        foldl (+) (foldl (+) (Fin 0) (map clen (take k ds))) (map clen (drop k ds))"
    by (metis append_take_drop_id foldl_append map_append)
  then have "cum clen ds (length ds) = Fin w"
    by (simp add: cum_def c w)
  with c w show ?thesis by (auto simp add: cum_def)
qed

lemma beyond_whole_no_hit:
  assumes "\<forall>d\<in>set ds. \<exists>r. clen d = Fin r \<and> 0 \<le> r"
    and "cum clen ds (length ds) < offset"
  shows "find (\<lambda>k. cum clen ds (Suc k) \<ge> offset) [0..<length ds] = None"
proof -
  have "\<not> (cum clen ds (Suc k) \<ge> offset)" for k
  proof -
    obtain c w where cw: "cum clen ds (Suc k) = Fin c" "cum clen ds (length ds) = Fin w" "c \<le> w"
      using cum_below_whole [OF assms(1)] by blast
    show ?thesis
      using assms(2) cw by (cases offset) auto
  qed
  then show ?thesis
    by (simp add: find_None_iff)
qed

lemma number_less_not_le: "(a::number) < b \<Longrightarrow> \<not> b \<le> a"
  by (cases a; cases b) simp_all

text \<open>
  Claim C3. Take a path whose curve list has no hole and at least one curve, let every
  curve have a length, and let \<open>whole\<close> be what \<open>getLength\<close> returns. Then
  \<open>getLocationAt(offset, false)\<close> returns the location of the specification: on the first
  curve whose cumulative length reaches the offset, at the parameter \<open>getParameter\<close>
  gives for the offset less the length before that curve; when no cumulative length
  reaches the offset, the last curve at parameter 1 if the offset is at most \<open>whole\<close>,
  and null otherwise. Moreover, when the length is not cached and the lengths of the
  curves are finite and not negative, an offset above the total length gives null.
\<close>

theorem getLocationAt_walk:
  assumes "getCurves p = (map Some ds, p1)" and "ds \<noteq> []"
    and "\<forall>d\<in>set ds. len d = Inr (clen d)"
    and "getLength len p1 = Inr (whole, p2)"
  shows "(\<exists>p3. getLocationAt len par offset False p =
                 Inr (locate_spec clen par ds whole offset, p3)) \<and>
         (p_length p = None \<and> (\<forall>d\<in>set ds. \<exists>r. clen d = Fin r \<and> 0 \<le> r) \<and> whole < offset
            \<longrightarrow> getLocationAt len par offset False p = Inr (None, p2))"
proof -
  have sc: "scan len par offset (map Some ds) (Fin 0) =
      Inr (case find (\<lambda>k. cum clen ds (Suc k) \<ge> offset) [0..<length ds] of
             Some k \<Rightarrow>
               Some \<lparr>cl_curve = Some (ds ! k),
                     cl_parameter = par (ds ! k) (offset - cum clen ds k)\<rparr>
           | None \<Rightarrow> None)"
    unfolding cum_def using scan_find [OF assms(3), of par offset "Fin 0"] by simp
  have lst: "nth_opt (map Some ds) (int (length (map Some ds)) - 1) = Some (Some (last ds))"
    using assms(2) by (simp add: nth_opt_def last_conv_nth nat_diff_distrib')
  show ?thesis
  proof (cases "find (\<lambda>k. cum clen ds (Suc k) \<ge> offset) [0..<length ds]")
    case None
    have run: "getLocationAt len par offset False p =
        (if offset \<le> whole then Inr (Some \<lparr>cl_curve = Some (last ds), cl_parameter = Fin 1\<rparr>, p2)
         else Inr (None, p2))"
      using lst by (simp add: getLocationAt_def assms(1) sc None assms(4))
    have first: "\<exists>p3. getLocationAt len par offset False p =
                 Inr (locate_spec clen par ds whole offset, p3)"
      by (simp add: run locate_spec_def None)
    have second: "whole < offset \<Longrightarrow> getLocationAt len par offset False p = Inr (None, p2)"
      using number_less_not_le [of whole offset] by (simp add: run)
    show ?thesis using first second by blast
  next
    case (Some k)
    have run: "getLocationAt len par offset False p =
        Inr (Some \<lparr>cl_curve = Some (ds ! k),
                    cl_parameter = par (ds ! k) (offset - cum clen ds k)\<rparr>, p1)"
      by (simp add: getLocationAt_def assms(1) sc Some)
    have first: "\<exists>p3. getLocationAt len par offset False p =
                 Inr (locate_spec clen par ds whole offset, p3)"
      by (simp add: run locate_spec_def Some)
    have "\<not> (p_length p = None \<and> (\<forall>d\<in>set ds. \<exists>r. clen d = Fin r \<and> 0 \<le> r) \<and> whole < offset)"
    proof
      assume h: "p_length p = None \<and> (\<forall>d\<in>set ds. \<exists>r. clen d = Fin r \<and> 0 \<le> r) \<and> whole < offset"
      then have "whole = cum clen ds (length ds)"
        using getLength_fresh [OF assms(1) _ assms(3) assms(4)] by blast
      with h have "find (\<lambda>k. cum clen ds (Suc k) \<ge> offset) [0..<length ds] = None"
        using beyond_whole_no_hit [of ds clen offset] by blast
      with Some show False by simp
    qed
    with first show ?thesis by blast
  qed
qed


lemma square_getCurves:
  "getCurves square_path =
     (map Some square_curves, square_path\<lparr>p_curves := Some (map Some square_curves)\<rparr>)"
  by (simp add: getCurves_def buildCurves_def square_path_def blank_def nth_opt_def
      square_curves_def Curve_create_def Let_def
      upt_rec [of 0] upt_rec [of 1] upt_rec [of 2] upt_rec [of 3])

lemma square_curve_lengths: "\<forall>d\<in>set square_curves. flat_length d = Inr (Fin 100)"
  by (simp add: square_curves_def flat_length_def Curve_getLength_def Curve_create_def
      vertex_def corner_def Segment_new_def Point_new_def isZero_def num_eq_def
      minus_number_def sqrt_10000 Let_def)

lemma square_getLength:
  "getLength flat_length (square_path\<lparr>p_curves := Some (map Some square_curves)\<rparr>) =
     Inr (Fin 400, square_path\<lparr>p_curves := Some (map Some square_curves), p_length := Some (Fin 400)\<rparr>)"
proof -
  have "add_lengths flat_length (map Some square_curves) (Fin 0) =
        Inr (foldl (+) (Fin 0) (map (\<lambda>c. Fin 100) square_curves))"
    using square_curve_lengths by (rule add_lengths_foldl)
  also have "\<dots> = Inr (Fin 400)"
    by (simp add: square_curves_def)
  finally show ?thesis
    by (simp add: getLength_def getCurves_def square_path_def blank_def)
qed

theorem getLocationAt_walk_witness:
  "map_sum id fst (getLocationAt flat_length flat_parameter (Fin 150) False square_path) =
     Inr (Some \<lparr>cl_curve = Some (square_curves ! 1), cl_parameter = Fin (1 / 2)\<rparr>) \<and>
   p_length square_path = None \<and> Fin 400 < Fin 450 \<and>
   map_sum id fst (getLocationAt flat_length flat_parameter (Fin 450) False square_path) =
     Inr None"
proof -
  have ne: "square_curves \<noteq> []"
    by (simp add: square_curves_def)
  have pl: "p_length square_path = None"
    by (simp add: square_path_def blank_def)
  have fin: "\<forall>d\<in>set square_curves. \<exists>r. Fin 100 = Fin r \<and> 0 \<le> r"
    by simp
  have spec: "locate_spec (\<lambda>c. Fin 100) flat_parameter square_curves (Fin 400) (Fin 150) =
      Some \<lparr>cl_curve = Some (square_curves ! 1), cl_parameter = Fin (1 / 2)\<rparr>"
    by (simp add: locate_spec_def cum_def flat_parameter_def minus_number_def
        square_curves_def upt_rec [of 0] upt_rec [of 1] upt_rec [of 2] upt_rec [of 3])
  note w = getLocationAt_walk [OF square_getCurves ne square_curve_lengths square_getLength]
  have a: "map_sum id fst (getLocationAt flat_length flat_parameter (Fin 150) False square_path) =
      Inr (Some \<lparr>cl_curve = Some (square_curves ! 1), cl_parameter = Fin (1 / 2)\<rparr>)"
    using w [of flat_parameter "Fin 150"] spec by auto
  have b: "map_sum id fst (getLocationAt flat_length flat_parameter (Fin 450) False square_path) =
      Inr None"
    using w [of flat_parameter "Fin 450"] pl fin by simp
  show ?thesis
    using a pl fin b by simp
qed

section \<open>Properties of the bounds\<close>







lemma NaN_less: "\<not> NaN < (b::number)"
  by simp

































end
